theory Spec2Isabelle
  imports Main "HOL-Library.Word"
begin

chapter \<open>xbargo: rendering a menu tree into the xbar line protocol\<close>

text \<open>
  A shallow embedding of \<^verbatim>\<open>xbargo.go\<close>. Go strings are byte sequences and are modelled
  as \<^typ>\<open>string\<close> (a list of 8-bit characters); icon bytes are \<^typ>\<open>8 word\<close> lists.
  The functions of the Go standard library that the package calls (\<^verbatim>\<open>fmt\<close> verbs,
  \<^verbatim>\<open>strings.Join\<close>, \<^verbatim>\<open>strings.Repeat\<close>, \<^verbatim>\<open>strconv.Quote\<close>, \<^verbatim>\<open>base64.StdEncoding\<close>,
  \<^verbatim>\<open>io.ReadAll\<close>) are modelled first, the package itself after them.
\<close>

section \<open>Go library functions\<close>

type_synonym byte = "8 word"

subsection \<open>The verbs of fmt: \<^verbatim>\<open>%d\<close>, \<^verbatim>\<open>%t\<close>, and a line end\<close>

definition lowerhex :: string where
  "lowerhex = ''0123456789abcdef''"

text \<open>\<^verbatim>\<open>%d\<close> of a non-negative integer: its decimal digits, most significant first.\<close>

function fmt_d :: "nat \<Rightarrow> string" where
  "fmt_d n = (if n < 10 then [lowerhex ! n] else fmt_d (n div 10) @ [lowerhex ! (n mod 10)])"
  by pat_completeness auto
termination
  by (relation "measure id") auto

declare fmt_d.simps [simp del]

text \<open>\<^verbatim>\<open>%t\<close> of a boolean.\<close>

definition fmt_t :: "bool \<Rightarrow> string" where
  "fmt_t b = (if b then ''true'' else ''false'')"

definition newline :: string where
  "newline = [CHR 0x0A]"

subsection \<open>strings.Join and strings.Repeat\<close>

fun Join :: "string list \<Rightarrow> string \<Rightarrow> string" where
  "Join [] sep = []"
| "Join [x] sep = x"
| "Join (x # y # ys) sep = x @ sep @ Join (y # ys) sep"

definition Repeat :: "string \<Rightarrow> nat \<Rightarrow> string" where
  "Repeat s n = concat (replicate n s)"

subsection \<open>strconv.Quote, the \<^verbatim>\<open>%q\<close> verb of fmt on a string\<close>

text \<open>
  \<^verbatim>\<open>fmt.Sprintf("%q", s)\<close> is \<^verbatim>\<open>strconv.Quote(s)\<close>: the string between double quotes,
  read rune by rune, with a backslash before every double quote and backslash, the
  printable runes as they are and every other rune or byte as an escape sequence.
  Runes are natural numbers here; shifts and masks of the Go code are written as
  multiplication, \<open>div\<close> and \<open>mod\<close> by the power of two.
\<close>

definition RuneError :: nat where
  "RuneError = 0xFFFD"

text \<open>
  \<^verbatim>\<open>utf8.DecodeRuneInString\<close>: the first rune of the string and its width in bytes;
  \<open>(RuneError, 1)\<close> for a byte sequence that is not the shortest UTF-8 form of a
  Unicode scalar value. The lead byte fixes the width and the range accepted for
  the second byte (the tables \<^verbatim>\<open>first\<close> and \<^verbatim>\<open>acceptRanges\<close> of the Go code).
\<close>

definition DecodeRuneInString :: "string \<Rightarrow> nat \<times> nat" where
  "DecodeRuneInString s =
     (case s of
        [] \<Rightarrow> (RuneError, 0)
      | c0 # rest \<Rightarrow>
          (let s0 = (of_char c0 :: nat) in
           if s0 < 0x80 then (s0, 1)
           else if s0 < 0xC2 \<or> 0xF5 \<le> s0 then (RuneError, 1)
           else
             (let sz = (if s0 < 0xE0 then 2 else if s0 < 0xF0 then 3 else 4 :: nat);
                  lo = (if s0 = 0xE0 then 0xA0 else if s0 = 0xF0 then 0x90 else 0x80 :: nat);
                  hi = (if s0 = 0xED then 0x9F else if s0 = 0xF4 then 0x8F else 0xBF :: nat)
              in if length s < sz then (RuneError, 1)
                 else
                   (let s1 = (of_char (s ! 1) :: nat) in
                    if s1 < lo \<or> hi < s1 then (RuneError, 1)
                    else if sz \<le> 2 then ((s0 mod 0x20) * 0x40 + s1 mod 0x40, 2)
                    else
                      (let s2 = (of_char (s ! 2) :: nat) in
                       if s2 < 0x80 \<or> 0xBF < s2 then (RuneError, 1)
                       else if sz \<le> 3 then
                         ((s0 mod 0x10) * 0x1000 + (s1 mod 0x40) * 0x40 + s2 mod 0x40, 3)
                       else
                         (let s3 = (of_char (s ! 3) :: nat) in
                          if s3 < 0x80 \<or> 0xBF < s3 then (RuneError, 1)
                          else
                            ((s0 mod 0x08) * 0x40000 + (s1 mod 0x40) * 0x1000
                               + (s2 mod 0x40) * 0x40 + s3 mod 0x40, 4)))))))"

text \<open>
  \<^verbatim>\<open>strconv.IsPrint\<close>. Latin-1 is decided by the code of the function itself; above
  \<open>0xFF\<close> it searches the Unicode tables of package \<^verbatim>\<open>strconv\<close>, which are data of the
  Go distribution and are taken as the parameter \<open>tbl\<close>.
\<close>

definition IsPrint :: "(nat \<Rightarrow> bool) \<Rightarrow> nat \<Rightarrow> bool" where
  "IsPrint tbl r =
     (if r \<le> 0xFF then
        (if 0x20 \<le> r \<and> r \<le> 0x7E then True
         else if 0xA1 \<le> r \<and> r \<le> 0xFF then r \<noteq> 0xAD
         else False)
      else tbl r)"

text \<open>\<^verbatim>\<open>utf8.AppendRune\<close>: the UTF-8 encoding of a rune.\<close>

definition AppendRune :: "nat \<Rightarrow> string" where
  "AppendRune r =
     (if r \<le> 0x7F then [char_of r]
      else if r \<le> 0x7FF then [char_of (0xC0 + r div 0x40), char_of (0x80 + r mod 0x40)]
      else
        (let r' = (if 0x10FFFF < r \<or> (0xD800 \<le> r \<and> r \<le> 0xDFFF) then RuneError else r) in
         if r' \<le> 0xFFFF then
           [char_of (0xE0 + r' div 0x1000), char_of (0x80 + r' div 0x40 mod 0x40),
            char_of (0x80 + r' mod 0x40)]
         else
           [char_of (0xF0 + r' div 0x40000), char_of (0x80 + r' div 0x1000 mod 0x40),
            char_of (0x80 + r' div 0x40 mod 0x40), char_of (0x80 + r' mod 0x40)]))"

text \<open>The hexadecimal digits of \<open>r\<close> from the one worth \<open>16 ^ (k - 1)\<close> down.\<close>

fun hexdigits :: "nat \<Rightarrow> nat \<Rightarrow> string" where
  "hexdigits 0 r = []"
| "hexdigits (Suc k) r = lowerhex ! (r div 16 ^ k mod 16) # hexdigits k r"

text \<open>
  \<^verbatim>\<open>strconv.appendEscapedRune\<close> with the quote character \<open>"\<close> and neither
  \<^verbatim>\<open>ASCIIonly\<close> nor \<^verbatim>\<open>graphicOnly\<close>, as \<^verbatim>\<open>Quote\<close> calls it.
\<close>

definition appendEscapedRune :: "(nat \<Rightarrow> bool) \<Rightarrow> nat \<Rightarrow> string" where
  "appendEscapedRune tbl r =
     (if r = 0x22 \<or> r = 0x5C then [CHR 0x5C, char_of r]
      else if IsPrint tbl r then AppendRune r
      else if r = 0x07 then [CHR 0x5C, CHR ''a'']
      else if r = 0x08 then [CHR 0x5C, CHR ''b'']
      else if r = 0x0C then [CHR 0x5C, CHR ''f'']
      else if r = 0x0A then [CHR 0x5C, CHR ''n'']
      else if r = 0x0D then [CHR 0x5C, CHR ''r'']
      else if r = 0x09 then [CHR 0x5C, CHR ''t'']
      else if r = 0x0B then [CHR 0x5C, CHR ''v'']
      else if r < 0x20 \<or> r = 0x7F then [CHR 0x5C, CHR ''x''] @ hexdigits 2 r
      else if 0x10FFFF < r \<or> (0xD800 \<le> r \<and> r \<le> 0xDFFF) then
        [CHR 0x5C, CHR ''u''] @ hexdigits 4 RuneError
      else if r < 0x10000 then [CHR 0x5C, CHR ''u''] @ hexdigits 4 r
      else [CHR 0x5C, CHR ''U''] @ hexdigits 8 r)"

text \<open>
  The loop of \<^verbatim>\<open>strconv.appendQuotedWith\<close>: one rune, or one byte that starts no
  rune, at a time. The width is at least one and at most the length of what is
  left, so the loop ends.
\<close>

function quoteBody :: "(nat \<Rightarrow> bool) \<Rightarrow> string \<Rightarrow> string" where
  "quoteBody tbl [] = []"
| "quoteBody tbl (c # cs) =
     (let r0 = (of_char c :: nat);
          (r, width) = (if r0 \<ge> 0x80 then DecodeRuneInString (c # cs) else (r0, 1))
      in if width = 1 \<and> r = RuneError then
           [CHR 0x5C, CHR ''x''] @ hexdigits 2 r0 @ quoteBody tbl cs
         else appendEscapedRune tbl r @ quoteBody tbl (drop width (c # cs)))"
  by pat_completeness auto
termination
proof (relation "measure (\<lambda>(tbl, s). length s)")
  fix tbl :: "nat \<Rightarrow> bool" and c :: char and cs :: string and r0 :: nat
    and x :: "nat \<times> nat" and r width :: nat
  assume x: "x = (if 0x80 \<le> r0 then DecodeRuneInString (c # cs) else (r0, 1))"
    and rw: "(r, width) = x"
  have "0 < snd (DecodeRuneInString (c # cs))"
    by (simp add: DecodeRuneInString_def Let_def)
  then have "0 < width"
    using x rw by (cases "0x80 \<le> r0") (auto simp: prod_eq_iff)
  then show "((tbl, drop width (c # cs)), (tbl, c # cs)) \<in> measure (\<lambda>(tbl, s). length s)"
    by simp
qed auto

definition Quote :: "(nat \<Rightarrow> bool) \<Rightarrow> string \<Rightarrow> string" where
  "Quote tbl s = [CHR 0x22] @ quoteBody tbl s @ [CHR 0x22]"

subsection \<open>base64.StdEncoding\<close>

definition encodeStd :: string where
  "encodeStd = ''ABCDEFGHIJKLMNOPQRSTUVWXYZabcdefghijklmnopqrstuvwxyz0123456789+/''"

text \<open>
  \<^verbatim>\<open>Encoding.Encode\<close> with the standard alphabet and the padding character \<open>=\<close>:
  three bytes make the 24-bit value \<open>val\<close> and four characters; one or two bytes
  left over make two or three characters and the padding.
\<close>

fun EncodeToString :: "byte list \<Rightarrow> string" where
  "EncodeToString (b0 # b1 # b2 # rest) =
     (let val = unat b0 * 0x10000 + unat b1 * 0x100 + unat b2 in
      [encodeStd ! (val div 0x40000 mod 0x40), encodeStd ! (val div 0x1000 mod 0x40),
       encodeStd ! (val div 0x40 mod 0x40), encodeStd ! (val mod 0x40)]
      @ EncodeToString rest)"
| "EncodeToString [b0, b1] =
     (let val = unat b0 * 0x10000 + unat b1 * 0x100 in
      [encodeStd ! (val div 0x40000 mod 0x40), encodeStd ! (val div 0x1000 mod 0x40),
       encodeStd ! (val div 0x40 mod 0x40), CHR ''=''])"
| "EncodeToString [b0] =
     (let val = unat b0 * 0x10000 in
      [encodeStd ! (val div 0x40000 mod 0x40), encodeStd ! (val div 0x1000 mod 0x40),
       CHR ''='', CHR ''=''])"
| "EncodeToString [] = []"

text \<open>
  The decoder is not called by the package; it is the inverse the round-trip
  property of the specification speaks of. It reads four characters at a time,
  accepts padding in the last group only, and fails on any other input.
\<close>

fun index_of :: "'a \<Rightarrow> 'a list \<Rightarrow> nat option" where
  "index_of c [] = None"
| "index_of c (x # xs) = (if c = x then Some 0 else map_option Suc (index_of c xs))"

definition decodeMap :: "char \<Rightarrow> nat option" where
  "decodeMap c = index_of c encodeStd"

definition decodeQuantum :: "char \<Rightarrow> char \<Rightarrow> char \<Rightarrow> char \<Rightarrow> byte list option" where
  "decodeQuantum c0 c1 c2 c3 =
     (case (decodeMap c0, decodeMap c1, decodeMap c2, decodeMap c3) of
        (Some v0, Some v1, Some v2, Some v3) \<Rightarrow>
          (let val = v0 * 0x40000 + v1 * 0x1000 + v2 * 0x40 + v3 in
           Some [of_nat (val div 0x10000), of_nat (val div 0x100 mod 0x100),
                 of_nat (val mod 0x100)])
      | _ \<Rightarrow> None)"

definition decodeLast :: "char \<Rightarrow> char \<Rightarrow> char \<Rightarrow> char \<Rightarrow> byte list option" where
  "decodeLast c0 c1 c2 c3 =
     (if c3 \<noteq> CHR ''='' then decodeQuantum c0 c1 c2 c3
      else if c2 \<noteq> CHR ''='' then
        (case (decodeMap c0, decodeMap c1, decodeMap c2) of
           (Some v0, Some v1, Some v2) \<Rightarrow>
             (let val = v0 * 0x40000 + v1 * 0x1000 + v2 * 0x40 in
              Some [of_nat (val div 0x10000), of_nat (val div 0x100 mod 0x100)])
         | _ \<Rightarrow> None)
      else
        (case (decodeMap c0, decodeMap c1) of
           (Some v0, Some v1) \<Rightarrow>
             (let val = v0 * 0x40000 + v1 * 0x1000 in Some [of_nat (val div 0x10000)])
         | _ \<Rightarrow> None))"

fun DecodeString :: "string \<Rightarrow> byte list option" where
  "DecodeString [] = Some []"
| "DecodeString [c0, c1, c2, c3] = decodeLast c0 c1 c2 c3"
| "DecodeString (c0 # c1 # c2 # c3 # rest) =
     (case decodeQuantum c0 c1 c2 c3 of
        None \<Rightarrow> None
      | Some bs \<Rightarrow> map_option ((@) bs) (DecodeString rest))"
| "DecodeString _ = None"

subsection \<open>io.Reader, io.ReadAll and io.Writer\<close>

text \<open>
  An \<^verbatim>\<open>io.Reader\<close> is a mutable object: what \<^verbatim>\<open>io.ReadAll\<close> returns depends on what was
  read before, and two menu items may hold the same reader. Readers therefore live
  in a store, and a menu item holds the address of its reader. A reader is the
  bytes it has not delivered yet and the error, if any, that its \<^verbatim>\<open>Read\<close> reports
  in place of the end of input. \<^verbatim>\<open>bytes.NewReader(b)\<close> is \<open>\<lparr>rd_data = b, rd_err = None\<rparr>\<close>.
\<close>

record reader =
  rd_data :: "byte list"
  rd_err :: "string option"

type_synonym store = "nat \<Rightarrow> reader"

text \<open>
  \<^verbatim>\<open>io.ReadAll(r)\<close> reads until the end of input or an error: it delivers the bytes
  left (with a nil error) or the error, and leaves the reader with nothing left.
\<close>

definition ReadAll :: "store \<Rightarrow> nat \<Rightarrow> (string + byte list) \<times> store" where
  "ReadAll h r =
     ((case rd_err (h r) of None \<Rightarrow> Inr (rd_data (h r)) | Some e \<Rightarrow> Inl e),
      h(r := (h r)\<lparr>rd_data := []\<rparr>))"

text \<open>
  An \<^verbatim>\<open>io.Writer\<close>: the chunks it has accepted, one per call of \<^verbatim>\<open>Write\<close>, and when it
  starts to fail: \<open>wfail = Some (n, e)\<close> accepts \<open>n\<close> more writes and answers every
  later one with the error \<open>e\<close>, writing nothing. \<^verbatim>\<open>fmt.Fprintln\<close> and \<^verbatim>\<open>fmt.Fprintf\<close>
  format their line first and hand it to \<^verbatim>\<open>Write\<close> in one call.
\<close>

record writer =
  wout :: "string list"
  wfail :: "(nat \<times> string) option"

definition Write :: "writer \<Rightarrow> string \<Rightarrow> string option \<times> writer" where
  "Write w s =
     (case wfail w of
        None \<Rightarrow> (None, w\<lparr>wout := wout w @ [s]\<rparr>)
      | Some (0, e) \<Rightarrow> (Some e, w)
      | Some (Suc n, e) \<Rightarrow> (None, w\<lparr>wout := wout w @ [s], wfail := Some (n, e)\<rparr>))"

section \<open>The data model of the package\<close>

text \<open>
  \<^verbatim>\<open>MaxLength\<close> is a Go \<^verbatim>\<open>uint\<close> (64 bits on the platforms xbar runs on).
\<close>

record style =
  MaxLength :: "64 word"
  Color :: string
  IconImageTemplate :: bool

text \<open>
  An \<^verbatim>\<open>Action\<close> is an interface value. The type switch of \<^verbatim>\<open>renderSelf\<close> knows the
  dynamic types \<^verbatim>\<open>HrefAction\<close> and \<^verbatim>\<open>ShellAction\<close>; the pointer types \<^verbatim>\<open>*HrefAction\<close>
  and \<^verbatim>\<open>*ShellAction\<close> implement the interface too (the marker method has a value
  receiver) and match neither case: they are \<open>PointerAction\<close>. A nil interface is
  \<open>None\<close> in the field of the menu item.
\<close>

datatype action =
  HrefAction (URI: string)
| ShellAction (Command: string) (Args: "string list") (OpenTerminal: bool)
| PointerAction

text \<open>
  A \<^verbatim>\<open>MenuItem\<close>. \<open>Icon\<close> is the address of an \<^verbatim>\<open>io.Reader\<close> in the store, or \<open>None\<close>
  for a nil interface; \<open>Alt\<close> is \<open>None\<close> for a nil pointer. The items of a tree are
  reached through pointers in Go; the renderer never writes to an item, so a tree
  of values is the same to it. The pointers of \<open>SubMenu\<close>, of the elements and of
  the plugin's title are taken to be non-nil and the tree to be finite, as every
  tree built with the constructors of the package is.
\<close>

datatype menu_item =
  MenuItem (Title: string) (Icon: "nat option") (Style: style) (Shortcut: string)
    (Action: "action option") (Refresh: bool) (Alt: "menu_item option")
    (SubMenu: "menu_item list")

text \<open>An \<^verbatim>\<open>XbarElement\<close> is a \<^verbatim>\<open>Separator\<close> or a \<^verbatim>\<open>*MenuItem\<close>.\<close>

datatype element = Separator | Item menu_item

datatype plugin = Plugin (PluginTitle: menu_item) (Elements: "element list")

text \<open>
  What ends a rendering early: the panic of \<^verbatim>\<open>renderSelf\<close> with the error of the icon's
  reader, which no function of the package recovers, or the error of a write, which
  \<^verbatim>\<open>printElement\<close> and \<^verbatim>\<open>RunW\<close> return.
\<close>

datatype failure = Panic string | WriteError string

subsection \<open>Constructors\<close>

definition NewShellAction :: "string \<Rightarrow> string list \<Rightarrow> action" where
  "NewShellAction command args = ShellAction command args False"

text \<open>\<^verbatim>\<open>fmt.Sprintf("echo -n %s | pbcopy", text)\<close>: the verb \<^verbatim>\<open>%s\<close> copies the string.\<close>

definition NewCopyAction :: "string \<Rightarrow> action" where
  "NewCopyAction text =
     ShellAction ''/bin/bash'' [''-c'', ''echo -n '' @ text @ '' | pbcopy''] False"

definition NewHrefAction :: "string \<Rightarrow> action" where
  "NewHrefAction uri = HrefAction uri"

definition NewMenuItem :: "string \<Rightarrow> menu_item" where
  "NewMenuItem title =
     MenuItem title None \<lparr>MaxLength = 0, Color = [], IconImageTemplate = False\<rparr> [] None False
       None []"

definition NewPlugin :: plugin where
  "NewPlugin =
     Plugin (MenuItem [] None \<lparr>MaxLength = 0, Color = [], IconImageTemplate = True\<rparr> [] None
       False None []) []"

section \<open>Rendering one line\<close>

text \<open>
  The loop over \<^verbatim>\<open>action.Args\<close>: \<open>i\<close> is the index of the first argument left, and
  each turn is \<^verbatim>\<open>part = fmt.Sprintf("%s param%d='%s'", part, i+1, arg)\<close>.
\<close>

fun shellParams :: "string \<Rightarrow> nat \<Rightarrow> string list \<Rightarrow> string" where
  "shellParams part i [] = part"
| "shellParams part i (arg # args) =
     shellParams (part @ '' param'' @ fmt_d (i + 1) @ ''='' @ [CHR 0x27] @ arg @ [CHR 0x27])
       (i + 1) args"

text \<open>
  \<^verbatim>\<open>(*MenuItem).renderSelf\<close>. The parts are appended in the order of the source; the
  icon is read with \<^verbatim>\<open>io.ReadAll\<close>, whose error is a panic.
\<close>

definition renderSelf ::
  "(nat \<Rightarrow> bool) \<Rightarrow> store \<Rightarrow> menu_item \<Rightarrow> (failure + string) \<times> store" where
  "renderSelf tbl h m =
     (let parts = [Title m @ ''|''];
          parts = (if Shortcut m \<noteq> [] then parts @ [''key='' @ Shortcut m] else parts);
          parts = (if 0 < MaxLength (Style m)
                   then parts @ [''length='' @ fmt_d (unat (MaxLength (Style m)))]
                   else parts);
          parts = (if Color (Style m) \<noteq> [] then parts @ [''color='' @ Color (Style m)]
                   else parts);
          parts = (case Action m of
                     None \<Rightarrow> parts
                   | Some (HrefAction uri) \<Rightarrow> parts @ [''href='' @ uri]
                   | Some (ShellAction command args terminal) \<Rightarrow>
                       parts @ [shellParams
                         (''terminal='' @ fmt_t terminal @ '' shell='' @ Quote tbl command) 0 args]
                   | Some PointerAction \<Rightarrow> parts)
      in case Icon m of
           None \<Rightarrow>
             (Inr (Join (parts @ [''refresh='' @ fmt_t (Refresh m), ''trim=false'']) '' ''), h)
         | Some r \<Rightarrow>
             (case ReadAll h r of
                (Inl e, h') \<Rightarrow> (Inl (Panic e), h')
              | (Inr b, h') \<Rightarrow>
                  (let imageType =
                         (if IconImageTemplate (Style m) then ''templateImage'' else ''image'');
                       parts = parts @ [imageType @ ''='' @ EncodeToString b]
                   in (Inr (Join (parts @ [''refresh='' @ fmt_t (Refresh m), ''trim=false''])
                              '' ''), h'))))"

text \<open>\<^verbatim>\<open>(*MenuItem).renderAlt\<close>: the empty string without an alternate item.\<close>

definition renderAlt ::
  "(nat \<Rightarrow> bool) \<Rightarrow> store \<Rightarrow> menu_item \<Rightarrow> (failure + string) \<times> store" where
  "renderAlt tbl h m = (case Alt m of None \<Rightarrow> (Inr [], h) | Some a \<Rightarrow> renderSelf tbl h a)"

text \<open>The three methods of the interface \<^verbatim>\<open>XbarElement\<close>, by the dynamic type.\<close>

fun el_renderSelf ::
  "(nat \<Rightarrow> bool) \<Rightarrow> store \<Rightarrow> element \<Rightarrow> (failure + string) \<times> store" where
  "el_renderSelf tbl h Separator = (Inr ''---'', h)"
| "el_renderSelf tbl h (Item m) = renderSelf tbl h m"

fun el_renderAlt ::
  "(nat \<Rightarrow> bool) \<Rightarrow> store \<Rightarrow> element \<Rightarrow> (failure + string) \<times> store" where
  "el_renderAlt tbl h Separator = (Inr [], h)"
| "el_renderAlt tbl h (Item m) = renderAlt tbl h m"

fun children :: "element \<Rightarrow> element list" where
  "children Separator = []"
| "children (Item m) = map Item (SubMenu m)"

section \<open>Walking the tree\<close>

text \<open>
  \<^verbatim>\<open>printElement\<close>, and the loop that calls it on each element of a list at one level
  and returns at the first error: the loop over \<^verbatim>\<open>el.children()\<close> in \<^verbatim>\<open>printElement\<close>
  and the loop over \<^verbatim>\<open>p.Elements\<close> in \<^verbatim>\<open>RunW\<close>. The result is the failure, if any, the
  writer and the store of readers as the call leaves them.
\<close>

fun esize :: "element \<Rightarrow> nat" where
  "esize Separator = 0"
| "esize (Item m) = 2 * size m"

function printElement ::
    "(nat \<Rightarrow> bool) \<Rightarrow> writer \<Rightarrow> store \<Rightarrow> element \<Rightarrow> nat \<Rightarrow> (failure + unit) \<times> writer \<times> store"
  and printElements ::
    "(nat \<Rightarrow> bool) \<Rightarrow> writer \<Rightarrow> store \<Rightarrow> element list \<Rightarrow> nat \<Rightarrow> (failure + unit) \<times> writer \<times> store"
where
  "printElement tbl w h el level =
     (let prefix = Repeat ''--'' level in
      case el_renderSelf tbl h el of
        (Inl e, h1) \<Rightarrow> (Inl e, w, h1)
      | (Inr self, h1) \<Rightarrow>
          (case Write w (prefix @ self @ newline) of
             (Some e, w1) \<Rightarrow> (Inl (WriteError e), w1, h1)
           | (None, w1) \<Rightarrow>
               (case printElements tbl w1 h1 (children el) (level + 1) of
                  (Inl e, w2, h2) \<Rightarrow> (Inl e, w2, h2)
                | (Inr u, w2, h2) \<Rightarrow>
                    (case el_renderAlt tbl h2 el of
                       (Inl e, h3) \<Rightarrow> (Inl e, w2, h3)
                     | (Inr alt, h3) \<Rightarrow>
                         if alt \<noteq> [] then
                           (case Write w2 (prefix @ alt @ '' alternate=true'' @ newline) of
                              (Some e, w3) \<Rightarrow> (Inl (WriteError e), w3, h3)
                            | (None, w3) \<Rightarrow> (Inr (), w3, h3))
                         else (Inr (), w2, h3)))))"
| "printElements tbl w h [] level = (Inr (), w, h)"
| "printElements tbl w h (el # els) level =
     (case printElement tbl w h el level of
        (Inl e, w1, h1) \<Rightarrow> (Inl e, w1, h1)
      | (Inr u, w1, h1) \<Rightarrow> printElements tbl w1 h1 els level)"
  by pat_completeness auto

lemma sum_esize_children: "(\<Sum>c\<leftarrow>map Item xs. esize c + 2) = 2 * size_list size xs"
  by (induction xs) auto

lemma esize_children: "(\<Sum>c\<leftarrow>children el. esize c + 2) < esize el + 1"
proof (cases el)
  case Separator
  then show ?thesis by simp
next
  case (Item m)
  have "size_list size (SubMenu m) < size m"
    by (cases m) simp
  then have "2 * size_list size (SubMenu m) < 2 * size m + 1" by simp
  with sum_esize_children [of "SubMenu m"] show ?thesis
    using Item by simp
qed

termination printElement
proof (relation "measure (\<lambda>x. case x of
          Inl (tbl, w, h, el, level) \<Rightarrow> esize el + 2
        | Inr (tbl, w, h, els, level) \<Rightarrow> (\<Sum>c\<leftarrow>els. esize c + 2) + 1)")
  fix tbl :: "nat \<Rightarrow> bool" and w :: writer and h :: store and el :: element and level :: nat
  show "(Inr (tbl, w1, h1, children el, level + 1), Inl (tbl, w, h, el, level))
          \<in> measure (\<lambda>x. case x of
              Inl (tbl, w, h, el, level) \<Rightarrow> esize el + 2
            | Inr (tbl, w, h, els, level) \<Rightarrow> (\<Sum>c\<leftarrow>els. esize c + 2) + 1)" for w1 h1
    using esize_children [of el] by simp
qed simp_all

declare printElement.simps [simp del]

text \<open>\<^verbatim>\<open>(*Plugin).RunW\<close>.\<close>

definition RunW ::
  "(nat \<Rightarrow> bool) \<Rightarrow> writer \<Rightarrow> store \<Rightarrow> plugin \<Rightarrow> (failure + unit) \<times> writer \<times> store" where
  "RunW tbl w h p =
     (case renderSelf tbl h (PluginTitle p) of
        (Inl e, h1) \<Rightarrow> (Inl e, w, h1)
      | (Inr title, h1) \<Rightarrow>
          (case Write w (title @ newline) of
             (Some e, w1) \<Rightarrow> (Inl (WriteError e), w1, h1)
           | (None, w1) \<Rightarrow>
               if 0 < length (Elements p) then
                 (case Write w1 (''---'' @ newline) of
                    (Some e, w2) \<Rightarrow> (Inl (WriteError e), w2, h1)
                  | (None, w2) \<Rightarrow> printElements tbl w2 h1 (Elements p) 0)
               else (Inr (), w1, h1)))"

section \<open>The line protocol, as the specification words it\<close>

text \<open>
  The fields of a line in the order of the specification: the title, the shortcut,
  the length, the colour and the action; the icon; the refresh flag and the fixed
  \<open>trim=false\<close>. \<open>paramFields i args\<close> numbers the arguments from \<open>i + 1\<close>.
\<close>

definition paramFields :: "nat \<Rightarrow> string list \<Rightarrow> string" where
  "paramFields i args =
     concat (map2 (\<lambda>k arg. '' param'' @ fmt_d k @ ''='' @ [CHR 0x27] @ arg @ [CHR 0x27])
       [Suc i..<Suc i + length args] args)"

definition actionField :: "(nat \<Rightarrow> bool) \<Rightarrow> action \<Rightarrow> string list" where
  "actionField tbl a =
     (case a of
        HrefAction uri \<Rightarrow> [''href='' @ uri]
      | ShellAction command args terminal \<Rightarrow>
          [''terminal='' @ fmt_t terminal @ '' shell='' @ Quote tbl command @ paramFields 0 args]
      | PointerAction \<Rightarrow> [])"

definition styleFields :: "menu_item \<Rightarrow> string list" where
  "styleFields m =
     [Title m @ ''|'']
     @ (if Shortcut m \<noteq> [] then [''key='' @ Shortcut m] else [])
     @ (if 0 < MaxLength (Style m) then [''length='' @ fmt_d (unat (MaxLength (Style m)))] else [])
     @ (if Color (Style m) \<noteq> [] then [''color='' @ Color (Style m)] else [])"

definition headFields :: "(nat \<Rightarrow> bool) \<Rightarrow> menu_item \<Rightarrow> string list" where
  "headFields tbl m =
     styleFields m @ (case Action m of None \<Rightarrow> [] | Some a \<Rightarrow> actionField tbl a)"

definition iconField :: "menu_item \<Rightarrow> byte list \<Rightarrow> string" where
  "iconField m b =
     (if IconImageTemplate (Style m) then ''templateImage'' else ''image'')
     @ ''='' @ EncodeToString b"

definition tailFields :: "menu_item \<Rightarrow> string list" where
  "tailFields m = [''refresh='' @ fmt_t (Refresh m), ''trim=false'']"

text \<open>
  The walk of the specification: a node's own line at its depth, its children one
  level deeper, then its alternate line at the node's own depth. A job is one line
  to write: the depth of its indent, the node whose \<^verbatim>\<open>renderSelf\<close> is its body, and
  whether it is an alternate line. \<open>emit\<close> writes the jobs in order and stops at the
  first failure.
\<close>

datatype job = Job (job_depth: nat) (job_node: element) (job_alt: bool)

definition render_job ::
  "(nat \<Rightarrow> bool) \<Rightarrow> writer \<Rightarrow> store \<Rightarrow> job \<Rightarrow> (failure + unit) \<times> writer \<times> store" where
  "render_job tbl w h j =
     (case el_renderSelf tbl h (job_node j) of
        (Inl e, h1) \<Rightarrow> (Inl e, w, h1)
      | (Inr body, h1) \<Rightarrow>
          (case Write w (Repeat ''--'' (job_depth j) @ body
                         @ (if job_alt j then '' alternate=true'' else []) @ newline) of
             (Some e, w1) \<Rightarrow> (Inl (WriteError e), w1, h1)
           | (None, w1) \<Rightarrow> (Inr (), w1, h1)))"

fun emit ::
  "(nat \<Rightarrow> bool) \<Rightarrow> writer \<Rightarrow> store \<Rightarrow> job list \<Rightarrow> (failure + unit) \<times> writer \<times> store" where
  "emit tbl w h [] = (Inr (), w, h)"
| "emit tbl w h (j # js) =
     (case render_job tbl w h j of
        (Inl e, w1, h1) \<Rightarrow> (Inl e, w1, h1)
      | (Inr u, w1, h1) \<Rightarrow> emit tbl w1 h1 js)"

fun walk_item :: "nat \<Rightarrow> menu_item \<Rightarrow> job list" where
  "walk_item d (MenuItem t i s k a r al sm) =
     Job d (Item (MenuItem t i s k a r al sm)) False
     # concat (map (walk_item (Suc d)) sm)
     @ (case al of None \<Rightarrow> [] | Some x \<Rightarrow> [Job d (Item x) True])"

fun walk :: "nat \<Rightarrow> element \<Rightarrow> job list" where
  "walk d Separator = [Job d Separator False]"
| "walk d (Item m) = walk_item d m"

definition plugin_jobs :: "plugin \<Rightarrow> job list" where
  "plugin_jobs p =
     Job 0 (Item (PluginTitle p)) False
     # (if Elements p = [] then []
        else Job 0 Separator False # concat (map (walk 0) (Elements p)))"

text \<open>The line of a job whose node rendered as \<open>body\<close>.\<close>

definition job_line :: "job \<Rightarrow> string \<Rightarrow> string" where
  "job_line j body =
     Repeat ''--'' (job_depth j) @ body @ (if job_alt j then '' alternate=true'' else [])
     @ newline"




text \<open>
  The readers a rendering reads, in order: the icons of the nodes of its jobs. A
  reader is at its end when it has no byte left and reports no error, as a
  \<^verbatim>\<open>bytes.Reader\<close> that has been read.
\<close>

definition job_icon :: "job \<Rightarrow> nat option" where
  "job_icon j = (case job_node j of Separator \<Rightarrow> None | Item m \<Rightarrow> Icon m)"

definition rendered_icons :: "plugin \<Rightarrow> nat list" where
  "rendered_icons p =
     concat (map (\<lambda>j. case job_icon j of None \<Rightarrow> [] | Some r \<Rightarrow> [r]) (plugin_jobs p))"

definition at_end :: "store \<Rightarrow> nat \<Rightarrow> bool" where
  "at_end h r = (h r = \<lparr>rd_data = [], rd_err = None\<rparr>)"

text \<open>
  A character that \<^verbatim>\<open>%q\<close> prints as it is: printable ASCII other than the double
  quote and the backslash.
\<close>

definition plain_char :: "char \<Rightarrow> bool" where
  "plain_char c =
     (0x20 \<le> (of_char c :: nat) \<and> (of_char c :: nat) \<le> 0x7E \<and> c \<noteq> CHR 0x22 \<and> c \<noteq> CHR 0x5C)"

subsection \<open>Examples\<close>

text \<open>
  Concrete inputs for the evaluated examples: a table under which no rune above
  \<open>U+00FF\<close> is printable (the examples are ASCII and never consult it), a store whose
  readers are all at the end of their input, and an empty buffer that never fails.
\<close>

definition latin1_only :: "nat \<Rightarrow> bool" where
  "latin1_only r = False"

definition no_readers :: store where
  "no_readers = (\<lambda>a. \<lparr>rd_data = [], rd_err = None\<rparr>)"

definition buffer :: writer where
  "buffer = \<lparr>wout = [], wfail = None\<rparr>"

text \<open>A menu item with one child and an alternate item.\<close>

definition hello_item :: menu_item where
  "hello_item =
     MenuItem ''Hello'' None \<lparr>MaxLength = 0, Color = [], IconImageTemplate = False\<rparr> [] None False
       (Some (NewMenuItem ''Option'')) [NewMenuItem ''Kid'']"

text \<open>A menu item with an icon, and a store whose reader 0 holds two bytes.\<close>

definition status_item :: menu_item where
  "status_item =
     MenuItem ''Ok'' (Some 0) \<lparr>MaxLength = 0, Color = [], IconImageTemplate = False\<rparr> [] None False
       None []"

definition one_reader :: store where
  "one_reader = no_readers(0 := \<lparr>rd_data = [0x4D, 0x61], rd_err = None\<rparr>)"

text \<open>
  A plugin whose title has the icon of reader 0; an item whose icon is reader 1, a
  store in which that reader fails, and a plugin with that item between two others.
\<close>

definition icon_plugin :: plugin where
  "icon_plugin =
     Plugin (MenuItem [] (Some 0) \<lparr>MaxLength = 0, Color = [], IconImageTemplate = True\<rparr> [] None
       False None []) []"

definition broken_item :: menu_item where
  "broken_item =
     MenuItem ''b'' (Some 1) \<lparr>MaxLength = 0, Color = [], IconImageTemplate = False\<rparr> [] None False
       None []"

definition failing_reader :: store where
  "failing_reader = no_readers(1 := \<lparr>rd_data = [0x4D], rd_err = Some ''boom''\<rparr>)"

definition broken_plugin :: plugin where
  "broken_plugin =
     Plugin (NewMenuItem ''T'') [Item (NewMenuItem ''a''), Item broken_item, Item (NewMenuItem ''c'')]"

text \<open>
  Two menu items with a shell action: the first of the package's examples, and one
  whose command holds a double quote.
\<close>

definition say_item :: menu_item where
  "say_item =
     MenuItem ''Say Hello'' None \<lparr>MaxLength = 0, Color = [], IconImageTemplate = False\<rparr> []
       (Some (ShellAction ''say'' [''hello'', ''world''] False)) False None []"

definition quote_item :: menu_item where
  \<open>quote_item =
     MenuItem ''t'' None \<lparr>MaxLength = 0, Color = [], IconImageTemplate = False\<rparr> []
       (Some (ShellAction ''a"b'' [''x'', ''y''] False)) False None []\<close>

text \<open>
  The literal example of the specification: the plugin titled \<open>Submenu\<close> with one
  item \<open>Places\<close> and its children \<open>London\<close> and \<open>Paris\<close>.
\<close>

definition places_plugin :: plugin where
  "places_plugin =
     Plugin (NewMenuItem ''Submenu'')
       [Item (MenuItem ''Places'' None \<lparr>MaxLength = 0, Color = [], IconImageTemplate = False\<rparr> []
                None False None [NewMenuItem ''London'', NewMenuItem ''Paris''])]"

section \<open>The renderer writes the lines of the walk\<close>

subsection \<open>The fields of a line\<close>

lemma shellParams_eq: "shellParams part i args = part @ paramFields i args"
proof (induction args arbitrary: part i)
  case Nil
  then show ?case by (simp add: paramFields_def)
next
  case (Cons arg args)
  have "[Suc i..<Suc i + length (arg # args)] = Suc i # [Suc (Suc i)..<Suc (Suc i) + length args]"
    by (subst upt_conv_Cons) simp_all
  then show ?case
    using Cons.IH [of "part @ '' param'' @ fmt_d (i + 1) @ ''='' @ [CHR 0x27] @ arg @ [CHR 0x27]" "Suc i"]
    by (simp add: paramFields_def)
qed

lemma renderSelf_fields:
  "renderSelf tbl h m =
     (case Icon m of
        None \<Rightarrow> (Inr (Join (headFields tbl m @ tailFields m) '' ''), h)
      | Some r \<Rightarrow>
          (case rd_err (h r) of
             Some e \<Rightarrow> (Inl (Panic e), h(r := (h r)\<lparr>rd_data := []\<rparr>))
           | None \<Rightarrow>
               (Inr (Join (headFields tbl m @ [iconField m (rd_data (h r))] @ tailFields m) '' ''),
                h(r := (h r)\<lparr>rd_data := []\<rparr>))))"
  by (simp add: renderSelf_def headFields_def styleFields_def tailFields_def iconField_def
      actionField_def ReadAll_def shellParams_eq Let_def split: option.split action.split)

lemma Join_snoc: "xs \<noteq> [] \<Longrightarrow> Join (xs @ [x]) sep = Join xs sep @ sep @ x"
  by (induction xs sep rule: Join.induct) auto

lemma Join_tail: "xs \<noteq> [] \<Longrightarrow> Join (xs @ [a, b]) sep = Join xs sep @ sep @ a @ sep @ b"
  using Join_snoc [of "xs @ [a]" b sep] Join_snoc [of xs a sep] by simp

lemma headFields_nonempty: "headFields tbl m \<noteq> []"
  by (simp add: headFields_def styleFields_def)

lemma renderSelf_suffix:
  assumes "renderSelf tbl h m = (Inr s, h')"
  shows "\<exists>p. s = p @ '' refresh='' @ fmt_t (Refresh m) @ '' trim=false''"
proof (cases "Icon m")
  case None
  with assms have "s = Join (headFields tbl m @ tailFields m) '' ''"
    by (simp add: renderSelf_fields)
  then show ?thesis
    using Join_tail [OF headFields_nonempty, of tbl m] by (simp add: tailFields_def)
next
  case (Some r)
  with assms have "s = Join ((headFields tbl m @ [iconField m (rd_data (h r))]) @ tailFields m) '' ''"
    by (auto simp: renderSelf_fields split: option.splits)
  moreover have "headFields tbl m @ [iconField m (rd_data (h r))] \<noteq> []" by simp
  ultimately show ?thesis
    using Join_tail [of "headFields tbl m @ [iconField m (rd_data (h r))]"]
    by (simp add: tailFields_def)
qed

lemma renderSelf_nonempty: "renderSelf tbl h m = (Inr s, h') \<Longrightarrow> s \<noteq> []"
  using renderSelf_suffix by fastforce

subsection \<open>printElement and RunW write the jobs of the walk\<close>

lemma emit_append:
  "emit tbl w h (xs @ ys) =
     (case emit tbl w h xs of
        (Inl e, w1, h1) \<Rightarrow> (Inl e, w1, h1)
      | (Inr u, w1, h1) \<Rightarrow> emit tbl w1 h1 ys)"
  by (induction xs arbitrary: w h) (auto split: prod.splits sum.splits)

lemma walk_children:
  "walk d (Item m) =
     Job d (Item m) False # concat (map (walk (Suc d)) (children (Item m)))
     @ (case Alt m of None \<Rightarrow> [] | Some x \<Rightarrow> [Job d (Item x) True])"
  by (cases m) (simp add: comp_def)

lemma printElement_emit:
  "printElement tbl w h el d = emit tbl w h (walk d el)"
  "printElements tbl w h els d = emit tbl w h (concat (map (walk d) els))"
proof (induction tbl w h el d and tbl w h els d rule: printElement_printElements.induct)
  case (1 tbl w h el level)
  show ?case
  proof (cases el)
    case Separator
    then show ?thesis
      by (simp add: printElement.simps render_job_def split: prod.splits sum.splits option.splits)
  next
    case (Item m)
    show ?thesis
    proof (cases "renderSelf tbl h m")
      case (Pair r1 h1)
      show ?thesis
      proof (cases r1)
        case (Inl e)
        with Pair Item show ?thesis
          by (simp add: printElement.simps [of tbl w h "Item m" level] walk_children render_job_def del: walk.simps)
      next
        case (Inr self)
        show ?thesis
        proof (cases "Write w (Repeat ''--'' level @ self @ newline)")
          case (Pair r2 w1)
          show ?thesis
          proof (cases r2)
            case (Some e)
            with Pair Inr \<open>renderSelf tbl h m = (r1, h1)\<close> Item show ?thesis
              by (simp add: printElement.simps [of tbl w h "Item m" level] walk_children render_job_def del: walk.simps)
          next
            case None
            have IH: "printElements tbl w1 h1 (children el) (level + 1)
                        = emit tbl w1 h1 (concat (map (walk (level + 1)) (children el)))"
              using "1.IH" Pair None Inr \<open>renderSelf tbl h m = (r1, h1)\<close> Item by simp
            show ?thesis
            proof (cases "emit tbl w1 h1 (concat (map (walk (Suc level)) (children el)))")
              case (fields r3 w2 h2)
              show ?thesis
              proof (cases "Alt m")
                case None
                with fields IH Pair \<open>r2 = None\<close> Inr \<open>renderSelf tbl h m = (r1, h1)\<close> Item show ?thesis
                  by (simp add: printElement.simps [of tbl w h "Item m" level] walk_children render_job_def
                      renderAlt_def emit_append del: walk.simps children.simps split: sum.splits)
              next
                case (Some a)
                have ne: "renderSelf tbl h2 a = (Inr s, h3) \<Longrightarrow> s \<noteq> []" for s h3
                  by (rule renderSelf_nonempty)
                from Some fields IH Pair \<open>r2 = None\<close> Inr \<open>renderSelf tbl h m = (r1, h1)\<close> Item ne
                show ?thesis
                  by (auto simp add: printElement.simps [of tbl w h "Item m" level] walk_children render_job_def
                      renderAlt_def emit_append simp del: walk.simps children.simps
                      split: sum.splits prod.splits option.splits)
              qed
            qed
          qed
        qed
      qed
    qed
  qed
next
  case (2 tbl w h level)
  then show ?case by simp
next
  case (3 tbl w h el els level)
  then show ?case
    by (simp add: emit_append split: prod.splits sum.splits)
qed

lemma Write_None: "Write w s = (None, w1) \<Longrightarrow> wout w1 = wout w @ [s]"
  by (auto simp: Write_def split: option.splits prod.splits nat.splits)

lemma Write_Some: "Write w s = (Some e, w1) \<Longrightarrow> w1 = w"
  by (auto simp: Write_def split: option.splits prod.splits nat.splits)

lemma RunW_emit: "RunW tbl w h p = emit tbl w h (plugin_jobs p)"
proof (cases "Elements p = []")
  case True
  then show ?thesis
    by (simp add: RunW_def plugin_jobs_def render_job_def Repeat_def
        split: prod.splits sum.splits option.splits)
next
  case False
  then show ?thesis
    by (auto simp: RunW_def plugin_jobs_def render_job_def Repeat_def printElement_emit
        split: prod.splits sum.splits option.splits)
qed

lemma render_job_ok:
  assumes "render_job tbl w h j = (Inr u, w', h')"
  shows "\<exists>body. el_renderSelf tbl h (job_node j) = (Inr body, h')
           \<and> wout w' = wout w @ [job_line j body]"
  using assms
  by (auto simp: render_job_def job_line_def split: prod.splits sum.splits option.splits
      dest: Write_None)

lemma emit_ok_lines:
  assumes "emit tbl w h js = (Inr u, w', h')"
  shows "\<exists>bodies. length bodies = length js
           \<and> wout w' = wout w @ map2 job_line js bodies
           \<and> (\<forall>i<length js. \<exists>hh hh'. el_renderSelf tbl hh (job_node (js ! i)) = (Inr (bodies ! i), hh'))"
  using assms
proof (induction js arbitrary: w h)
  case Nil
  then show ?case by simp
next
  case (Cons j js)
  from Cons.prems obtain w1 h1 where
    j: "render_job tbl w h j = (Inr (), w1, h1)" and rest: "emit tbl w1 h1 js = (Inr u, w', h')"
    by (auto split: prod.splits sum.splits)
  from render_job_ok [OF j] obtain body where
    body: "el_renderSelf tbl h (job_node j) = (Inr body, h1)" "wout w1 = wout w @ [job_line j body]"
    by blast
  from Cons.IH [OF rest] obtain bodies where
    bs: "length bodies = length js" "wout w' = wout w1 @ map2 job_line js bodies"
      "\<forall>i<length js. \<exists>hh hh'. el_renderSelf tbl hh (job_node (js ! i)) = (Inr (bodies ! i), hh')"
    by blast
  have "\<forall>i<length (j # js). \<exists>hh hh'.
          el_renderSelf tbl hh (job_node ((j # js) ! i)) = (Inr ((body # bodies) ! i), hh')"
  proof (intro allI impI)
    fix i assume "i < length (j # js)"
    then show "\<exists>hh hh'. el_renderSelf tbl hh (job_node ((j # js) ! i)) = (Inr ((body # bodies) ! i), hh')"
      using body(1) bs(3) by (cases i) auto
  qed
  with body bs show ?case
    by (intro exI [of _ "body # bodies"]) simp
qed

lemma emit_ok_length:
  "emit tbl w h js = (Inr u, w', h') \<Longrightarrow> length (wout w') = length (wout w) + length js"
  using emit_ok_lines [of tbl w h js u w' h'] by auto

lemma Write_extends: "Write w s = (r, w1) \<Longrightarrow> \<exists>rest. wout w1 = wout w @ rest"
  by (cases r) (auto dest: Write_None Write_Some)

lemma render_job_extends:
  "render_job tbl w h j = (r, w1, h1) \<Longrightarrow> \<exists>rest. wout w1 = wout w @ rest"
  by (auto simp: render_job_def split: prod.splits sum.splits option.splits
      dest: Write_None Write_Some)

lemma emit_extends: "emit tbl w h js = (r, w', h') \<Longrightarrow> \<exists>rest. wout w' = wout w @ rest"
proof (induction js arbitrary: w h)
  case Nil
  then show ?case by simp
next
  case (Cons j js)
  obtain r1 w1 h1 where j: "render_job tbl w h j = (r1, w1, h1)"
    by (cases "render_job tbl w h j") auto
  from render_job_extends [OF j] obtain a where a: "wout w1 = wout w @ a" by blast
  show ?case
  proof (cases r1)
    case (Inl e)
    with j Cons.prems a show ?thesis by auto
  next
    case (Inr u)
    with j Cons.prems have "emit tbl w1 h1 js = (r, w', h')" by simp
    from Cons.IH [OF this] a show ?thesis by auto
  qed
qed

lemma Write_never_fails:
  "wfail w = None \<Longrightarrow> Write w s = (None, w\<lparr>wout := wout w @ [s]\<rparr>)"
  by (simp add: Write_def)

lemma renderSelf_not_separator:
  assumes "renderSelf tbl h m = (Inr s, h')"
  shows "s \<noteq> ''---''"
proof -
  from renderSelf_suffix [OF assms] obtain p where
    "s = p @ '' refresh='' @ fmt_t (Refresh m) @ '' trim=false''" by blast
  then have "3 < length s" by simp
  then show ?thesis by auto
qed

subsection \<open>The base64 decoder inverts the encoder\<close>

lemma index_of_nth: "distinct xs \<Longrightarrow> n < length xs \<Longrightarrow> index_of (xs ! n) xs = Some n"
proof (induction xs arbitrary: n)
  case Nil
  then show ?case by simp
next
  case (Cons x xs)
  show ?case
  proof (cases n)
    case 0
    then show ?thesis by simp
  next
    case (Suc k)
    with Cons.prems have "xs ! k \<noteq> x" by auto
    with Cons Suc show ?thesis by simp
  qed
qed

lemma distinct_encodeStd: "distinct encodeStd"
  by (simp add: encodeStd_def)

lemma length_encodeStd: "length encodeStd = 64"
  by (simp add: encodeStd_def)

lemma decodeMap_encodeStd: "n < 64 \<Longrightarrow> decodeMap (encodeStd ! n) = Some n"
  by (simp add: decodeMap_def index_of_nth distinct_encodeStd length_encodeStd)

lemma pad_not_encodeStd:
  assumes "n < 64"
  shows "encodeStd ! n \<noteq> CHR ''=''"
proof -
  have "CHR ''='' \<notin> set encodeStd" by (simp add: encodeStd_def)
  moreover have "encodeStd ! n \<in> set encodeStd"
    using assms by (simp add: length_encodeStd)
  ultimately show ?thesis by auto
qed

lemma sextets: 
  fixes v :: nat
  assumes "v < 0x1000000"
  shows "(v div 0x40000 mod 0x40) * 0x40000 + (v div 0x1000 mod 0x40) * 0x1000
           + (v div 0x40 mod 0x40) * 0x40 + v mod 0x40 = v"
proof -
  have a: "v div 0x40000 mod 0x40 = v div 0x40000"
    using assms by (simp add: less_mult_imp_div_less)
  have b: "v div 0x1000 = (v div 0x40000) * 0x40 + v div 0x1000 mod 0x40"
    using div_mult_mod_eq [of "v div 0x1000" "0x40"] by (simp add: div_mult2_eq [symmetric])
  have c: "v div 0x40 = (v div 0x1000) * 0x40 + v div 0x40 mod 0x40"
    using div_mult_mod_eq [of "v div 0x40" "0x40"] by (simp add: div_mult2_eq [symmetric])
  have d: "v = (v div 0x40) * 0x40 + v mod 0x40"
    by simp
  show ?thesis
    using a b c d by linarith
qed

lemma div_mod_digit:
  fixes q n c :: nat
  assumes "c < n"
  shows "(q * n + c) div n = q" and "(q * n + c) mod n = c"
  using assms by simp_all

lemma bytes3:
  fixes a b c :: nat
  assumes "b < 256" and "c < 256"
  shows "(a * 0x10000 + b * 0x100 + c) div 0x10000 = a"
    and "(a * 0x10000 + b * 0x100 + c) div 0x100 mod 0x100 = b"
    and "(a * 0x10000 + b * 0x100 + c) mod 0x100 = c"
proof -
  have v: "a * 0x10000 + b * 0x100 + c = (a * 0x100 + b) * 0x100 + c" by simp
  have d1: "((a * 0x100 + b) * 0x100 + c) div 0x100 = a * 0x100 + b"
    using assms(2) by (rule div_mod_digit(1))
  have m1: "((a * 0x100 + b) * 0x100 + c) mod 0x100 = c"
    using assms(2) by (rule div_mod_digit(2))
  have d2: "(a * 0x100 + b) div 0x100 = a"
    using assms(1) by (rule div_mod_digit(1))
  have m2: "(a * 0x100 + b) mod 0x100 = b"
    using assms(1) by (rule div_mod_digit(2))
  show "(a * 0x10000 + b * 0x100 + c) mod 0x100 = c"
    unfolding v by (rule m1)
  show "(a * 0x10000 + b * 0x100 + c) div 0x100 mod 0x100 = b"
    unfolding v d1 by (rule m2)
  have "((a * 0x100 + b) * 0x100 + c) div (0x100 * 0x100) = ((a * 0x100 + b) * 0x100 + c) div 0x100 div 0x100"
    by (rule div_mult2_eq)
  then have "((a * 0x100 + b) * 0x100 + c) div 0x10000 = a"
    unfolding d1 d2 by simp
  then show "(a * 0x10000 + b * 0x100 + c) div 0x10000 = a"
    unfolding v .
qed

lemma byte_lt: "unat (b :: byte) < 256"
  using unsigned_less [of b, where 'a = nat] by simp

lemma value24:
  fixes b0 b1 b2 :: byte
  shows "unat b0 * 0x10000 + unat b1 * 0x100 + unat b2 < 0x1000000"
  using byte_lt [of b0] byte_lt [of b1] byte_lt [of b2] by linarith

lemma decodeQuantum_encode:
  fixes b0 b1 b2 :: byte
  assumes "v = unat b0 * 0x10000 + unat b1 * 0x100 + unat b2"
  shows "decodeQuantum (encodeStd ! (v div 0x40000 mod 0x40)) (encodeStd ! (v div 0x1000 mod 0x40))
           (encodeStd ! (v div 0x40 mod 0x40)) (encodeStd ! (v mod 0x40)) = Some [b0, b1, b2]"
proof -
  have v: "v < 0x1000000"
    unfolding assms by (rule value24)
  have "v div 0x10000 = unat b0" "v div 0x100 mod 0x100 = unat b1" "v mod 0x100 = unat b2"
    unfolding assms using bytes3 [OF byte_lt [of b1] byte_lt [of b2], of "unat b0"] by blast+
  then show ?thesis
    by (simp add: decodeQuantum_def decodeMap_encodeStd sextets [OF v])
qed

lemma decodeLast_encode3:
  fixes b0 b1 b2 :: byte
  assumes "v = unat b0 * 0x10000 + unat b1 * 0x100 + unat b2"
  shows "decodeLast (encodeStd ! (v div 0x40000 mod 0x40)) (encodeStd ! (v div 0x1000 mod 0x40))
           (encodeStd ! (v div 0x40 mod 0x40)) (encodeStd ! (v mod 0x40)) = Some [b0, b1, b2]"
  using decodeQuantum_encode [OF assms] by (simp add: decodeLast_def pad_not_encodeStd)

lemma decodeLast_encode2:
  fixes b0 b1 :: byte
  assumes "v = unat b0 * 0x10000 + unat b1 * 0x100"
  shows "decodeLast (encodeStd ! (v div 0x40000 mod 0x40)) (encodeStd ! (v div 0x1000 mod 0x40))
           (encodeStd ! (v div 0x40 mod 0x40)) (CHR ''='') = Some [b0, b1]"
proof -
  have v0: "v = unat b0 * 0x10000 + unat b1 * 0x100 + unat (0 :: byte)"
    unfolding assms by simp
  have v: "v < 0x1000000"
    unfolding v0 by (rule value24)
  have "v = (unat b0 * 0x400 + unat b1 * 4) * 0x40 + 0"
    unfolding assms by simp
  then have m: "v mod 0x40 = 0"
    using div_mod_digit(2) [of 0 "0x40" "unat b0 * 0x400 + unat b1 * 4"] by simp
  have val: "(v div 0x40000 mod 0x40) * 0x40000 + (v div 0x1000 mod 0x40) * 0x1000
               + (v div 0x40 mod 0x40) * 0x40 = v"
    using sextets [OF v] unfolding m by (simp only: add_0_right)
  have "v div 0x10000 = unat b0" "v div 0x100 mod 0x100 = unat b1"
    unfolding v0 using bytes3 [OF byte_lt [of b1] byte_lt [of "0 :: byte"], of "unat b0"] by blast+
  then show ?thesis
    by (simp add: decodeLast_def decodeMap_encodeStd pad_not_encodeStd val)
qed

lemma decodeLast_encode1:
  fixes b0 :: byte
  assumes "v = unat b0 * 0x10000"
  shows "decodeLast (encodeStd ! (v div 0x40000 mod 0x40)) (encodeStd ! (v div 0x1000 mod 0x40))
           (CHR ''='') (CHR ''='') = Some [b0]"
proof -
  have v0: "v = unat b0 * 0x10000 + unat (0 :: byte) * 0x100 + unat (0 :: byte)"
    unfolding assms by simp
  have v: "v < 0x1000000"
    unfolding v0 by (rule value24)
  have "v = (unat b0 * 0x400) * 0x40 + 0"
    unfolding assms by simp
  then have m: "v mod 0x40 = 0" and d: "v div 0x40 = unat b0 * 0x400"
    using div_mod_digit [of 0 "0x40" "unat b0 * 0x400"] by simp_all
  have "unat b0 * 0x400 = (unat b0 * 0x10) * 0x40 + 0" by simp
  then have "unat b0 * 0x400 mod 0x40 = 0"
    using div_mod_digit(2) [of 0 "0x40" "unat b0 * 0x10"] by simp
  with d have m2: "v div 0x40 mod 0x40 = 0" by simp
  have val: "(v div 0x40000 mod 0x40) * 0x40000 + (v div 0x1000 mod 0x40) * 0x1000 = v"
    using sextets [OF v] unfolding m m2 by (simp only: mult_zero_left add_0_right)
  have "v div 0x10000 = unat b0"
    unfolding v0 using bytes3 [OF byte_lt [of "0 :: byte"] byte_lt [of "0 :: byte"], of "unat b0"] by blast
  then show ?thesis
    by (simp add: decodeLast_def decodeMap_encodeStd val)
qed

lemma EncodeToString_Nil_iff: "EncodeToString bs = [] \<longleftrightarrow> bs = []"
  by (induction bs rule: EncodeToString.induct) (simp_all add: Let_def)

lemma base64_roundtrip: "DecodeString (EncodeToString bs) = Some bs"
proof (induction bs rule: EncodeToString.induct)
  case (1 b0 b1 b2 rest)
  define v where "v = unat b0 * 0x10000 + unat b1 * 0x100 + unat b2"
  show ?case
  proof (cases "EncodeToString rest")
    case Nil
    then have "rest = []" by (simp add: EncodeToString_Nil_iff)
    with Nil decodeLast_encode3 [OF v_def] show ?thesis
      by (simp add: Let_def v_def)
  next
    case (Cons c cs)
    with 1 decodeQuantum_encode [OF v_def] show ?thesis
      by (simp add: Let_def v_def)
  qed
next
  case (2 b0 b1)
  define v where "v = unat b0 * 0x10000 + unat b1 * 0x100"
  from decodeLast_encode2 [OF v_def] show ?case
    by (simp add: Let_def v_def)
next
  case (3 b0)
  define v where "v = unat b0 * 0x10000"
  from decodeLast_encode1 [OF v_def] show ?case
    by (simp add: Let_def v_def)
next
  case 4
  then show ?case by simp
qed

subsection \<open>Nodes and their depth in the walk\<close>





subsection \<open>Counting lines; the alternate line\<close>




subsection \<open>Readers: failure, and readers at their end\<close>

lemma renderSelf_icon_error:
  assumes "Icon m = Some r" and "rd_err (h r) = Some e"
  shows "renderSelf tbl h m = (Inl (Panic e), h(r := (h r)\<lparr>rd_data := []\<rparr>))"
  using assms by (simp add: renderSelf_fields)

lemma renderSelf_at_end:
  assumes "\<forall>r. Icon m = Some r \<longrightarrow> at_end h r"
  shows "snd (renderSelf tbl h m) = h"
proof (cases "Icon m")
  case None
  then show ?thesis by (simp add: renderSelf_fields)
next
  case (Some r)
  with assms have "h r = \<lparr>rd_data = [], rd_err = None\<rparr>" by (simp add: at_end_def)
  then have "h(r := (h r)\<lparr>rd_data := []\<rparr>) = h" by (simp add: fun_upd_idem_iff)
  with Some \<open>h r = \<lparr>rd_data = [], rd_err = None\<rparr>\<close> show ?thesis
    by (simp add: renderSelf_fields)
qed

lemma render_job_at_end:
  assumes "\<forall>r. job_icon j = Some r \<longrightarrow> at_end h r" and "render_job tbl w h j = (res, w', h')"
  shows "h' = h"
proof (cases "job_node j")
  case Separator
  with assms(2) show ?thesis
    by (auto simp: render_job_def split: prod.splits sum.splits option.splits)
next
  case (Item m)
  with assms(1) have "snd (renderSelf tbl h m) = h"
    by (intro renderSelf_at_end) (simp add: job_icon_def)
  with Item assms(2) show ?thesis
    by (auto simp: render_job_def split: prod.splits sum.splits option.splits)
qed

lemma emit_at_end:
  assumes "\<forall>j\<in>set js. \<forall>r. job_icon j = Some r \<longrightarrow> at_end h r" and "emit tbl w h js = (res, w', h')"
  shows "h' = h"
  using assms
proof (induction js arbitrary: w)
  case Nil
  then show ?case by simp
next
  case (Cons j js)
  obtain r1 w1 h1 where j: "render_job tbl w h j = (r1, w1, h1)"
    by (cases "render_job tbl w h j") auto
  with Cons.prems(1) have h1: "h1 = h"
    using render_job_at_end [of j h tbl w r1 w1 h1] by simp
  show ?case
  proof (cases r1)
    case (Inl e)
    with j h1 Cons.prems(2) show ?thesis by simp
  next
    case (Inr u)
    with j h1 Cons.prems(2) have "emit tbl w1 h js = (res, w', h')" by simp
    with Cons.IH [of w1] Cons.prems(1) show ?thesis by simp
  qed
qed

subsection \<open>The examples, evaluated\<close>

lemma renderSelf_NewMenuItem:
  "renderSelf tbl h (NewMenuItem t) = (Inr (t @ ''| refresh=false trim=false''), h)"
  by (simp add: renderSelf_def NewMenuItem_def fmt_t_def)

lemma renderSelf_hello:
  "renderSelf tbl h hello_item = (Inr ''Hello| refresh=false trim=false'', h)"
  by (simp add: renderSelf_def hello_item_def fmt_t_def)

lemma walk_hello:
  "walk 1 (Item hello_item) =
     [Job 1 (Item hello_item) False, Job 2 (Item (NewMenuItem ''Kid'')) False,
      Job 1 (Item (NewMenuItem ''Option'')) True]"
  by (simp add: hello_item_def NewMenuItem_def eval_nat_numeral)

lemma printElement_hello:
  "printElement latin1_only buffer no_readers (Item hello_item) 1 =
     (Inr (),
      buffer\<lparr>wout := [''--Hello| refresh=false trim=false'' @ newline,
                       ''----Kid| refresh=false trim=false'' @ newline,
                       ''--Option| refresh=false trim=false alternate=true'' @ newline]\<rparr>,
      no_readers)"
  unfolding printElement_emit walk_hello
  by (simp add: render_job_def renderSelf_hello renderSelf_NewMenuItem
      Write_def buffer_def Repeat_def eval_nat_numeral)

lemma ReadAll_one_reader:
  "ReadAll one_reader 0 = (Inr [0x4D, 0x61], no_readers)"
  by (auto simp: ReadAll_def one_reader_def no_readers_def)

lemma EncodeToString_Ma: "EncodeToString [0x4D, 0x61] = ''TWE=''"
  by (simp add: encodeStd_def)

lemma walk_NewMenuItem: "walk d (Item (NewMenuItem t)) = [Job d (Item (NewMenuItem t)) False]"
  by (simp add: NewMenuItem_def)

lemma walk_broken_item: "walk d (Item broken_item) = [Job d (Item broken_item) False]"
  by (simp add: broken_item_def)

lemma plugin_jobs_broken:
  "plugin_jobs broken_plugin =
     [Job 0 (Item (NewMenuItem ''T'')) False, Job 0 Separator False,
      Job 0 (Item (NewMenuItem ''a'')) False]
     @ Job 0 (Item broken_item) False # [Job 0 (Item (NewMenuItem ''c'')) False]"
  by (simp add: plugin_jobs_def broken_plugin_def walk_NewMenuItem walk_broken_item
      del: walk.simps)

lemma emit_before_broken:
  "emit latin1_only buffer failing_reader
     [Job 0 (Item (NewMenuItem ''T'')) False, Job 0 Separator False,
      Job 0 (Item (NewMenuItem ''a'')) False] =
     (Inr (),
      buffer\<lparr>wout := [''T| refresh=false trim=false'' @ newline, ''---'' @ newline,
                       ''a| refresh=false trim=false'' @ newline]\<rparr>,
      failing_reader)"
  by (simp add: render_job_def renderSelf_NewMenuItem Write_def buffer_def Repeat_def)

lemma renderSelf_icon_title_full:
  "renderSelf tbl one_reader (PluginTitle icon_plugin) =
     (Inr ''| templateImage=TWE= refresh=false trim=false'', no_readers)"
  by (auto simp add: renderSelf_def icon_plugin_def ReadAll_def one_reader_def no_readers_def
      EncodeToString_Ma fmt_t_def simp del: EncodeToString.simps)

lemma renderSelf_icon_title_empty:
  "renderSelf tbl no_readers (PluginTitle icon_plugin) =
     (Inr ''| templateImage= refresh=false trim=false'', no_readers)"
  by (auto simp add: renderSelf_def icon_plugin_def ReadAll_def no_readers_def fmt_t_def)

lemma RunW_icon_first:
  "RunW latin1_only buffer one_reader icon_plugin =
     (Inr (), buffer\<lparr>wout := [''| templateImage=TWE= refresh=false trim=false'' @ newline]\<rparr>,
      no_readers)"
  by (simp add: RunW_def renderSelf_icon_title_full Write_def buffer_def)
    (simp add: icon_plugin_def)

lemma RunW_icon_second:
  "RunW latin1_only buffer no_readers icon_plugin =
     (Inr (), buffer\<lparr>wout := [''| templateImage= refresh=false trim=false'' @ newline]\<rparr>,
      no_readers)"
  by (simp add: RunW_def renderSelf_icon_title_empty Write_def buffer_def)
    (simp add: icon_plugin_def)

text \<open>The model writes the five lines that the specification gives for its example.\<close>

lemma plugin_jobs_places:
  "plugin_jobs places_plugin =
     [Job 0 (Item (NewMenuItem ''Submenu'')) False, Job 0 Separator False,
      Job 0 (Item (MenuItem ''Places'' None \<lparr>MaxLength = 0, Color = [], IconImageTemplate = False\<rparr> []
                None False None [NewMenuItem ''London'', NewMenuItem ''Paris''])) False,
      Job 1 (Item (NewMenuItem ''London'')) False, Job 1 (Item (NewMenuItem ''Paris'')) False]"
  by (simp add: plugin_jobs_def places_plugin_def NewMenuItem_def)

lemma RunW_places:
  "RunW tbl buffer h places_plugin =
     (Inr (),
      buffer\<lparr>wout := [''Submenu| refresh=false trim=false'' @ newline,
                       ''---'' @ newline,
                       ''Places| refresh=false trim=false'' @ newline,
                       ''--London| refresh=false trim=false'' @ newline,
                       ''--Paris| refresh=false trim=false'' @ newline]\<rparr>,
      h)"
  unfolding RunW_emit plugin_jobs_places
  by (simp add: render_job_def renderSelf_def NewMenuItem_def fmt_t_def Write_def buffer_def
      Repeat_def)

subsection \<open>What Quote leaves alone and what it escapes\<close>

lemma escaped_quote: "r = 0x22 \<Longrightarrow> appendEscapedRune tbl r = [CHR 0x5C, char_of r]"
  by (simp add: appendEscapedRune_def)

lemma plain_rune:
  fixes r :: nat
  assumes "0x20 \<le> r" and "r \<le> 0x7E" and "r \<noteq> 0x22" and "r \<noteq> 0x5C"
  shows "appendEscapedRune tbl r = [char_of r]"
  using assms by (simp add: appendEscapedRune_def IsPrint_def AppendRune_def)

lemma quoteBody_ascii:
  assumes "(of_char c :: nat) < 0x80"
  shows "quoteBody tbl (c # cs) = appendEscapedRune tbl (of_char c) @ quoteBody tbl cs"
  using assms by (simp add: Let_def RuneError_def)

lemma quoteBody_plain:
  assumes "plain_char c"
  shows "quoteBody tbl (c # cs) = c # quoteBody tbl cs"
proof -
  have "(of_char (CHR 0x22) :: nat) = 0x22" "(of_char (CHR 0x5C) :: nat) = 0x5C"
    by simp_all
  with assms have "(of_char c :: nat) \<noteq> 0x22" "(of_char c :: nat) \<noteq> 0x5C"
    unfolding plain_char_def by (metis of_char_eq_iff)+
  with assms have "appendEscapedRune tbl (of_char c) = [char_of (of_char c :: nat)]"
    unfolding plain_char_def by (intro plain_rune) simp_all
  moreover from assms have "(of_char c :: nat) < 0x80"
    by (simp add: plain_char_def)
  ultimately show ?thesis
    by (simp add: quoteBody_ascii del: quoteBody.simps)
qed

lemma quoteBody_dquote:
  "quoteBody tbl (CHR 0x22 # cs) = [CHR 0x5C, CHR 0x22] @ quoteBody tbl cs"
proof -
  have v: "(of_char (CHR 0x22) :: nat) = 0x22" by simp
  have "appendEscapedRune tbl (of_char (CHR 0x22)) = [CHR 0x5C, char_of (of_char (CHR 0x22) :: nat)]"
    using v by (rule escaped_quote)
  then have "appendEscapedRune tbl (of_char (CHR 0x22)) = [CHR 0x5C, CHR 0x22]"
    by (simp only: char_of_char)
  moreover have "(of_char (CHR 0x22) :: nat) < 0x80" by simp
  ultimately show ?thesis
    using quoteBody_ascii [of "CHR 0x22" tbl cs] by (simp only:)
qed

lemma quoteBody_plain_string: "\<forall>c\<in>set s. plain_char c \<Longrightarrow> quoteBody tbl s = s"
  by (induction s) (simp_all add: quoteBody_plain del: quoteBody.simps(2))

lemma quoteBody_plain_append:
  "\<forall>c\<in>set pre. plain_char c \<Longrightarrow> quoteBody tbl (pre @ rest) = pre @ quoteBody tbl rest"
  by (induction pre) (simp_all add: quoteBody_plain del: quoteBody.simps(2))

lemma paramFields_from_one:
  "paramFields 0 args =
     concat (map2 (\<lambda>i arg. '' param'' @ fmt_d i @ ''='' @ [CHR 0x27] @ arg @ [CHR 0x27])
       [1..<Suc (length args)] args)"
  by (simp add: paramFields_def)

lemma plain_say: "\<forall>c\<in>set ''say''. plain_char c"
  by (simp add: plain_char_def)

lemma Quote_say: \<open>Quote tbl ''say'' = ''"say"''\<close>
  using quoteBody_plain_string [OF plain_say] by (simp add: Quote_def)

lemma Quote_a_quote_b: \<open>Quote tbl ''a"b'' = ''"a'' @ [CHR 0x5C] @ ''"b"''\<close>
proof -
  have "plain_char (CHR ''a'')" "plain_char (CHR ''b'')" by (simp_all add: plain_char_def)
  then show ?thesis
    by (simp add: Quote_def quoteBody_plain quoteBody_dquote del: quoteBody.simps(2))
qed

lemma renderSelf_say_item:
  \<open>renderSelf tbl h say_item =
     (Inr (''Say Hello| terminal=false shell="say" param1='' @ [CHR 0x27] @ ''hello'' @ [CHR 0x27]
           @ '' param2='' @ [CHR 0x27] @ ''world'' @ [CHR 0x27] @ '' refresh=false trim=false''), h)\<close>
  by (simp add: renderSelf_fields headFields_def styleFields_def actionField_def paramFields_def
      tailFields_def say_item_def Quote_say fmt_t_def fmt_d.simps lowerhex_def)

lemma renderSelf_quote_item:
  \<open>renderSelf tbl h quote_item =
     (Inr (''t| terminal=false shell="a'' @ [CHR 0x5C] @ ''"b" param1='' @ [CHR 0x27] @ ''x''
           @ [CHR 0x27] @ '' param2='' @ [CHR 0x27] @ ''y'' @ [CHR 0x27]
           @ '' refresh=false trim=false''), h)\<close>
  by (simp add: renderSelf_fields headFields_def styleFields_def actionField_def paramFields_def
      tailFields_def quote_item_def Quote_a_quote_b fmt_t_def fmt_d.simps lowerhex_def)

section \<open>Properties of the renderer\<close>

subsection \<open>A line without optional fields\<close>

text \<open>
  C3. A MenuItem with an empty Shortcut, a zero-value Style (MaxLength 0, empty
  Color), a nil Action, a nil Icon and Refresh false renders as exactly its title
  followed by \<open>| refresh=false trim=false\<close>, and reads no reader.
\<close>

theorem plain_item_line:
  assumes "Shortcut m = []" and "MaxLength (Style m) = 0" and "Color (Style m) = []"
    and "Action m = None" and "Icon m = None" and "Refresh m = False"
  shows "renderSelf tbl h m = (Inr (Title m @ ''| refresh=false trim=false''), h)"
  using assms by (simp add: renderSelf_def fmt_t_def)

theorem plain_item_line_witness:
  "Shortcut (NewMenuItem ''Places'') = [] \<and> MaxLength (Style (NewMenuItem ''Places'')) = 0
   \<and> Color (Style (NewMenuItem ''Places'')) = [] \<and> Action (NewMenuItem ''Places'') = None
   \<and> Icon (NewMenuItem ''Places'') = None \<and> Refresh (NewMenuItem ''Places'') = False
   \<and> renderSelf latin1_only no_readers (NewMenuItem ''Places'')
       = (Inr ''Places| refresh=false trim=false'', no_readers)"
  using plain_item_line [of "NewMenuItem ''Places''" latin1_only no_readers]
  by (simp add: NewMenuItem_def)

subsection \<open>The copy action\<close>

text \<open>
  C10. For every string \<open>text\<close>, \<open>NewCopyAction text\<close> is a ShellAction with the command
  \<open>/bin/bash\<close>, the two arguments \<open>-c\<close> and \<open>echo -n <text> | pbcopy\<close>, the text copied
  into the second argument as it is, and OpenTerminal false.
\<close>

theorem NewCopyAction_fields:
  "NewCopyAction text = ShellAction ''/bin/bash'' [''-c'', ''echo -n '' @ text @ '' | pbcopy''] False
   \<and> Command (NewCopyAction text) = ''/bin/bash''
   \<and> Args (NewCopyAction text) = [''-c'', ''echo -n '' @ text @ '' | pbcopy'']
   \<and> OpenTerminal (NewCopyAction text) = False"
  by (simp add: NewCopyAction_def)

subsection \<open>The alternate line comes after the children\<close>

text \<open>
  C4. When a menu item with an alternate item is printed at a level without
  failure, the output is the item's own line, then every line of the subtrees of
  all its children (what the loop over the children wrote, as many lines as the
  walk of the children has jobs), and last the alternate line: the alternate item's
  rendering behind the indent of the owner's own level, with the suffix
  \<open> alternate=true\<close>.
\<close>

theorem alt_after_children:
  assumes ok: "printElement tbl w h (Item m) level = (Inr (), w', h')" and alt: "Alt m = Some a"
  shows "\<exists>self h1 w1 sub w2 h2 alt_line.
           renderSelf tbl h m = (Inr self, h1)
         \<and> Write w (Repeat ''--'' level @ self @ newline) = (None, w1)
         \<and> printElements tbl w1 h1 (children (Item m)) (level + 1) = (Inr (), w2, h2)
         \<and> wout w2 = wout w @ [Repeat ''--'' level @ self @ newline] @ sub
         \<and> length sub = length (concat (map (walk (level + 1)) (children (Item m))))
         \<and> renderSelf tbl h2 a = (Inr alt_line, h')
         \<and> wout w' = wout w @ [Repeat ''--'' level @ self @ newline] @ sub
                        @ [Repeat ''--'' level @ alt_line @ '' alternate=true'' @ newline]"
proof -
  from ok alt obtain self h1 w1 w2 h2 alt_line w3 where
    self: "renderSelf tbl h m = (Inr self, h1)"
    and w1: "Write w (Repeat ''--'' level @ self @ newline) = (None, w1)"
    and kids: "printElements tbl w1 h1 (children (Item m)) (level + 1) = (Inr (), w2, h2)"
    and a: "renderSelf tbl h2 a = (Inr alt_line, h')"
    and w3: "Write w2 (Repeat ''--'' level @ alt_line @ '' alternate=true'' @ newline) = (None, w')"
    by (auto simp: printElement.simps [of tbl w h "Item m" level] renderAlt_def Let_def
        simp del: children.simps dest: renderSelf_nonempty
        split: prod.splits sum.splits option.splits if_splits)
  from kids have e: "emit tbl w1 h1 (concat (map (walk (level + 1)) (children (Item m)))) = (Inr (), w2, h2)"
    by (simp add: printElement_emit del: children.simps)
  from emit_ok_lines [OF e] obtain bodies where
    bs: "length bodies = length (concat (map (walk (level + 1)) (children (Item m))))"
        "wout w2 = wout w1 @ map2 job_line (concat (map (walk (level + 1)) (children (Item m)))) bodies"
    by blast
  let ?sub = "map2 job_line (concat (map (walk (level + 1)) (children (Item m)))) bodies"
  have "wout w2 = wout w @ [Repeat ''--'' level @ self @ newline] @ ?sub"
    using bs(2) Write_None [OF w1] by simp
  moreover have "length ?sub = length (concat (map (walk (level + 1)) (children (Item m))))"
    using bs(1) by simp
  moreover have "wout w' = wout w @ [Repeat ''--'' level @ self @ newline] @ ?sub
                   @ [Repeat ''--'' level @ alt_line @ '' alternate=true'' @ newline]"
    using bs(2) Write_None [OF w1] Write_None [OF w3] by simp
  ultimately show ?thesis
    using self w1 kids a by blast
qed

theorem alt_after_children_witness:
  "printElement latin1_only buffer no_readers (Item hello_item) 1 =
     (Inr (),
      buffer\<lparr>wout := [''--Hello| refresh=false trim=false'' @ newline,
                       ''----Kid| refresh=false trim=false'' @ newline,
                       ''--Option| refresh=false trim=false alternate=true'' @ newline]\<rparr>,
      no_readers)
   \<and> Alt hello_item = Some (NewMenuItem ''Option'')
   \<and> (\<exists>self sub alt_line.
         wout (buffer\<lparr>wout := [''--Hello| refresh=false trim=false'' @ newline,
                       ''----Kid| refresh=false trim=false'' @ newline,
                       ''--Option| refresh=false trim=false alternate=true'' @ newline]\<rparr>)
           = wout buffer @ [Repeat ''--'' 1 @ self @ newline] @ sub
               @ [Repeat ''--'' 1 @ alt_line @ '' alternate=true'' @ newline]
         \<and> length sub = length (concat (map (walk (1 + 1)) (children (Item hello_item)))))"
proof -
  have al: "Alt hello_item = Some (NewMenuItem ''Option'')"
    by (simp add: hello_item_def)
  from alt_after_children [OF printElement_hello al] printElement_hello al
  show ?thesis by blast
qed

subsection \<open>The separator line after the title\<close>

text \<open>
  C6. A plugin without elements writes one line, the title's, when it succeeds, and
  nothing when it fails; it never writes the separator line. A rendering that
  succeeds has written the line \<open>---\<close> if and only if the plugin has at least one
  top-level element, and then that line is the second one, right after the title's.
  With at least one element, once the title line is written the next write is the
  separator line: if the writer refuses it, that error is the result; if not, the
  output continues with the title line and the line \<open>---\<close>, and the rest is the loop
  over the elements. So with a writer that never fails and a title that renders,
  the line \<open>---\<close> is in the output if and only if there is at least one element,
  whether or not an element fails later.
\<close>

theorem separator_iff_elements:
  assumes "RunW tbl w h p = (res, w', h')"
  shows "(Elements p = [] \<longrightarrow>
            (case res of
               Inr u \<Rightarrow> (\<exists>t. renderSelf tbl h (PluginTitle p) = (Inr t, h')
                            \<and> wout w' = wout w @ [t @ newline])
             | Inl e \<Rightarrow> wout w' = wout w))
       \<and> (res = Inr () \<longrightarrow>
            (''---'' @ newline \<in> set (drop (length (wout w)) (wout w'))) = (Elements p \<noteq> []))
       \<and> (res = Inr () \<and> Elements p \<noteq> [] \<longrightarrow>
            (\<exists>t rest. fst (renderSelf tbl h (PluginTitle p)) = Inr t
               \<and> wout w' = wout w @ (t @ newline) # (''---'' @ newline) # rest))
       \<and> (Elements p \<noteq> [] \<longrightarrow>
            (\<forall>t h1 w1. renderSelf tbl h (PluginTitle p) = (Inr t, h1)
                 \<and> Write w (t @ newline) = (None, w1) \<longrightarrow>
               (case Write w1 (''---'' @ newline) of
                  (Some e, w2) \<Rightarrow> res = Inl (WriteError e) \<and> w' = w2 \<and> h' = h1
                | (None, w2) \<Rightarrow>
                    (res, w', h') = printElements tbl w2 h1 (Elements p) 0
                    \<and> (\<exists>rest. wout w' = wout w @ (t @ newline) # (''---'' @ newline) # rest))))
       \<and> (wfail w = None \<longrightarrow>
            (\<forall>t. fst (renderSelf tbl h (PluginTitle p)) = Inr t \<longrightarrow>
               (''---'' @ newline \<in> set (drop (length (wout w)) (wout w'))) = (Elements p \<noteq> [])
               \<and> (Elements p \<noteq> [] \<longrightarrow>
                    (\<exists>rest. wout w' = wout w @ (t @ newline) # (''---'' @ newline) # rest))
               \<and> (Elements p = [] \<longrightarrow> res = Inr () \<and> wout w' = wout w @ [t @ newline])))"
proof -
  have c123: "(Elements p = [] \<longrightarrow>
            (case res of
               Inr u \<Rightarrow> (\<exists>t. renderSelf tbl h (PluginTitle p) = (Inr t, h')
                            \<and> wout w' = wout w @ [t @ newline])
             | Inl e \<Rightarrow> wout w' = wout w))
       \<and> (res = Inr () \<longrightarrow>
            (''---'' @ newline \<in> set (drop (length (wout w)) (wout w'))) = (Elements p \<noteq> []))
       \<and> (res = Inr () \<and> Elements p \<noteq> [] \<longrightarrow>
            (\<exists>t rest. fst (renderSelf tbl h (PluginTitle p)) = Inr t
               \<and> wout w' = wout w @ (t @ newline) # (''---'' @ newline) # rest))"
  proof (cases "Elements p = []")
    case True
    show ?thesis
    proof (cases "renderSelf tbl h (PluginTitle p)")
      case (Pair r1 h1)
      show ?thesis
      proof (cases r1)
        case (Inl e)
        with Pair True assms show ?thesis by (auto simp: RunW_def)
      next
        case (Inr t)
        have ne: "t \<noteq> ''---''"
          using renderSelf_not_separator Pair Inr by blast
        show ?thesis
        proof (cases "Write w (t @ newline)")
          case (Pair r2 w1)
          with \<open>renderSelf tbl h (PluginTitle p) = (r1, h1)\<close> Inr True assms ne show ?thesis
            by (cases r2) (auto simp: RunW_def dest: Write_None Write_Some)
        qed
      qed
    qed
  next
    case False
    show ?thesis
    proof (cases "res = Inr ()")
      case ok: True
      from assms ok False obtain t h1 w1 w2 where
        t: "renderSelf tbl h (PluginTitle p) = (Inr t, h1)"
        and w1: "Write w (t @ newline) = (None, w1)"
        and w2: "Write w1 (''---'' @ newline) = (None, w2)"
        and rest: "printElements tbl w2 h1 (Elements p) 0 = (Inr (), w', h')"
        by (auto simp: RunW_def split: prod.splits sum.splits option.splits if_splits)
      from rest obtain bodies where
        "wout w' = wout w2 @ map2 job_line (concat (map (walk 0) (Elements p))) bodies"
        using emit_ok_lines [of tbl w2 h1 "concat (map (walk 0) (Elements p))" "()" w' h']
        by (auto simp: printElement_emit)
      with Write_None [OF w1] Write_None [OF w2]
      have out: "wout w' = wout w @ (t @ newline) # (''---'' @ newline)
                   # map2 job_line (concat (map (walk 0) (Elements p))) bodies"
        by simp
      with t False ok show ?thesis by auto
    next
      case False
      with \<open>Elements p \<noteq> []\<close> show ?thesis by simp
    qed
  qed
  have c4: "case Write w1 (''---'' @ newline) of
              (Some e, w2) \<Rightarrow> res = Inl (WriteError e) \<and> w' = w2 \<and> h' = h1
            | (None, w2) \<Rightarrow>
                (res, w', h') = printElements tbl w2 h1 (Elements p) 0
                \<and> (\<exists>rest. wout w' = wout w @ (t @ newline) # (''---'' @ newline) # rest)"
    if ne: "Elements p \<noteq> []" and t: "renderSelf tbl h (PluginTitle p) = (Inr t, h1)"
      and w1: "Write w (t @ newline) = (None, w1)" for t h1 w1
  proof (cases "Write w1 (''---'' @ newline)")
    case (Pair r2 w2)
    show ?thesis
    proof (cases r2)
      case (Some e)
      with Pair assms ne t w1 show ?thesis by (simp add: RunW_def)
    next
      case None
      with Pair assms ne t w1 have run: "printElements tbl w2 h1 (Elements p) 0 = (res, w', h')"
        by (simp add: RunW_def)
      then have "emit tbl w2 h1 (concat (map (walk 0) (Elements p))) = (res, w', h')"
        by (simp add: printElement_emit)
      from emit_extends [OF this] obtain rest where "wout w' = wout w2 @ rest" by blast
      with Write_None [OF w1] Write_None [OF Pair [unfolded None]]
      have "wout w' = wout w @ (t @ newline) # (''---'' @ newline) # rest" by simp
      with run Pair None show ?thesis by auto
    qed
  qed
  have c5: "(''---'' @ newline \<in> set (drop (length (wout w)) (wout w'))) = (Elements p \<noteq> [])
            \<and> (Elements p \<noteq> [] \<longrightarrow>
                 (\<exists>rest. wout w' = wout w @ (t @ newline) # (''---'' @ newline) # rest))
            \<and> (Elements p = [] \<longrightarrow> res = Inr () \<and> wout w' = wout w @ [t @ newline])"
    if nf: "wfail w = None" and t: "fst (renderSelf tbl h (PluginTitle p)) = Inr t" for t
  proof -
    obtain h1 where t1: "renderSelf tbl h (PluginTitle p) = (Inr t, h1)"
      using t by (cases "renderSelf tbl h (PluginTitle p)") auto
    have ne: "t \<noteq> ''---''"
      using renderSelf_not_separator [OF t1] .
    let ?w1 = "w\<lparr>wout := wout w @ [t @ newline]\<rparr>"
    have w1: "Write w (t @ newline) = (None, ?w1)"
      using nf by (rule Write_never_fails)
    show ?thesis
    proof (cases "Elements p = []")
      case True
      with assms t1 w1 ne show ?thesis by (auto simp: RunW_def)
    next
      case False
      have "wfail ?w1 = None" using nf by simp
      then have w2: "Write ?w1 (''---'' @ newline) = (None, ?w1\<lparr>wout := wout ?w1 @ [''---'' @ newline]\<rparr>)"
        by (rule Write_never_fails)
      from c4 [OF False t1 w1] w2
      obtain rest where "wout w' = wout w @ (t @ newline) # (''---'' @ newline) # rest"
        by auto
      with False show ?thesis by auto
    qed
  qed
  have c4': "Elements p \<noteq> [] \<longrightarrow>
            (\<forall>t h1 w1. renderSelf tbl h (PluginTitle p) = (Inr t, h1)
                 \<and> Write w (t @ newline) = (None, w1) \<longrightarrow>
               (case Write w1 (''---'' @ newline) of
                  (Some e, w2) \<Rightarrow> res = Inl (WriteError e) \<and> w' = w2 \<and> h' = h1
                | (None, w2) \<Rightarrow>
                    (res, w', h') = printElements tbl w2 h1 (Elements p) 0
                    \<and> (\<exists>rest. wout w' = wout w @ (t @ newline) # (''---'' @ newline) # rest)))"
  proof (intro impI allI)
    fix t h1 w1
    assume ne: "Elements p \<noteq> []"
      and "renderSelf tbl h (PluginTitle p) = (Inr t, h1) \<and> Write w (t @ newline) = (None, w1)"
    then have "renderSelf tbl h (PluginTitle p) = (Inr t, h1)" "Write w (t @ newline) = (None, w1)"
      by simp_all
    with ne show "case Write w1 (''---'' @ newline) of
                  (Some e, w2) \<Rightarrow> res = Inl (WriteError e) \<and> w' = w2 \<and> h' = h1
                | (None, w2) \<Rightarrow>
                    (res, w', h') = printElements tbl w2 h1 (Elements p) 0
                    \<and> (\<exists>rest. wout w' = wout w @ (t @ newline) # (''---'' @ newline) # rest)"
      by (rule c4)
  qed
  have c5': "wfail w = None \<longrightarrow>
            (\<forall>t. fst (renderSelf tbl h (PluginTitle p)) = Inr t \<longrightarrow>
               (''---'' @ newline \<in> set (drop (length (wout w)) (wout w'))) = (Elements p \<noteq> [])
               \<and> (Elements p \<noteq> [] \<longrightarrow>
                    (\<exists>rest. wout w' = wout w @ (t @ newline) # (''---'' @ newline) # rest))
               \<and> (Elements p = [] \<longrightarrow> res = Inr () \<and> wout w' = wout w @ [t @ newline]))"
    using c5 by (intro impI allI)
  show ?thesis
    using c123 c4' c5' by (intro conjI) (elim conjE, assumption)+
qed

theorem separator_iff_elements_witness:
  "RunW latin1_only buffer no_readers (Plugin (NewMenuItem ''Menu'') []) =
     (Inr (), buffer\<lparr>wout := [''Menu| refresh=false trim=false'' @ newline]\<rparr>, no_readers)
   \<and> Elements (Plugin (NewMenuItem ''Menu'') []) = []
   \<and> (\<exists>t. renderSelf latin1_only no_readers (NewMenuItem ''Menu'') = (Inr t, no_readers)
          \<and> wout (buffer\<lparr>wout := [''Menu| refresh=false trim=false'' @ newline]\<rparr>)
              = wout buffer @ [t @ newline])
   \<and> ''---'' @ newline
       \<notin> set (drop (length (wout buffer))
               (wout (buffer\<lparr>wout := [''Menu| refresh=false trim=false'' @ newline]\<rparr>)))
   \<and> RunW latin1_only buffer no_readers places_plugin =
       (Inr (),
        buffer\<lparr>wout := [''Submenu| refresh=false trim=false'' @ newline,
                         ''---'' @ newline,
                         ''Places| refresh=false trim=false'' @ newline,
                         ''--London| refresh=false trim=false'' @ newline,
                         ''--Paris| refresh=false trim=false'' @ newline]\<rparr>,
        no_readers)
   \<and> Elements places_plugin \<noteq> []
   \<and> wfail buffer = None
   \<and> fst (renderSelf latin1_only no_readers (PluginTitle places_plugin))
       = Inr ''Submenu| refresh=false trim=false''
   \<and> ''---'' @ newline
       \<in> set (drop (length (wout buffer))
               (wout (buffer\<lparr>wout := [''Submenu| refresh=false trim=false'' @ newline,
                         ''---'' @ newline,
                         ''Places| refresh=false trim=false'' @ newline,
                         ''--London| refresh=false trim=false'' @ newline,
                         ''--Paris| refresh=false trim=false'' @ newline]\<rparr>)))
   \<and> (\<exists>rest.
         wout (buffer\<lparr>wout := [''Submenu| refresh=false trim=false'' @ newline,
                         ''---'' @ newline,
                         ''Places| refresh=false trim=false'' @ newline,
                         ''--London| refresh=false trim=false'' @ newline,
                         ''--Paris| refresh=false trim=false'' @ newline]\<rparr>)
           = wout buffer @ (''Submenu| refresh=false trim=false'' @ newline)
               # (''---'' @ newline) # rest)"
proof -
  have run: "RunW latin1_only buffer no_readers (Plugin (NewMenuItem ''Menu'') []) =
     (Inr (), buffer\<lparr>wout := [''Menu| refresh=false trim=false'' @ newline]\<rparr>, no_readers)"
    by (simp add: RunW_def renderSelf_NewMenuItem Write_def buffer_def)
  have ne: "Elements places_plugin \<noteq> []"
    by (simp add: places_plugin_def)
  have nf: "wfail buffer = None"
    by (simp add: buffer_def)
  have t: "fst (renderSelf latin1_only no_readers (PluginTitle places_plugin))
             = Inr ''Submenu| refresh=false trim=false''"
    by (simp add: places_plugin_def renderSelf_NewMenuItem)
  note empty = separator_iff_elements [OF run]
  note full = separator_iff_elements [OF RunW_places [of latin1_only no_readers]]
  from full nf t ne
  have "''---'' @ newline
          \<in> set (drop (length (wout buffer))
               (wout (buffer\<lparr>wout := [''Submenu| refresh=false trim=false'' @ newline,
                         ''---'' @ newline,
                         ''Places| refresh=false trim=false'' @ newline,
                         ''--London| refresh=false trim=false'' @ newline,
                         ''--Paris| refresh=false trim=false'' @ newline]\<rparr>)))"
    and "\<exists>rest.
         wout (buffer\<lparr>wout := [''Submenu| refresh=false trim=false'' @ newline,
                         ''---'' @ newline,
                         ''Places| refresh=false trim=false'' @ newline,
                         ''--London| refresh=false trim=false'' @ newline,
                         ''--Paris| refresh=false trim=false'' @ newline]\<rparr>)
           = wout buffer @ (''Submenu| refresh=false trim=false'' @ newline)
               # (''---'' @ newline) # rest"
    by blast+
  moreover from empty run
  have "Elements (Plugin (NewMenuItem ''Menu'') []) = []
   \<and> (\<exists>t. renderSelf latin1_only no_readers (NewMenuItem ''Menu'') = (Inr t, no_readers)
          \<and> wout (buffer\<lparr>wout := [''Menu| refresh=false trim=false'' @ newline]\<rparr>)
              = wout buffer @ [t @ newline])
   \<and> ''---'' @ newline
       \<notin> set (drop (length (wout buffer))
               (wout (buffer\<lparr>wout := [''Menu| refresh=false trim=false'' @ newline]\<rparr>)))"
    by simp
  ultimately show ?thesis
    using run RunW_places [of latin1_only no_readers] ne nf t by blast
qed

subsection \<open>The indent is the depth\<close>



subsection \<open>The icon field\<close>

text \<open>
  C8. For a menu item with an icon whose reader delivers its bytes \<open>b\<close> without error,
  the rendering is the fields before the icon, then the field
  \<open><imageType>=<base64 of b>\<close> with the image type \<open>templateImage\<close> when the style's
  IconImageTemplate is set and \<open>image\<close> otherwise, then the refresh and trim fields.
  \<open>b\<close> is what the reader held, and decoding the payload gives \<open>b\<close> back.
\<close>

theorem icon_field_base64:
  assumes "Icon m = Some r" and "ReadAll h r = (Inr b, h')"
  shows "renderSelf tbl h m =
           (Inr (Join (headFields tbl m) '' '' @ '' ''
                 @ (if IconImageTemplate (Style m) then ''templateImage'' else ''image'')
                 @ ''='' @ EncodeToString b
                 @ '' refresh='' @ fmt_t (Refresh m) @ '' trim=false''), h')
         \<and> b = rd_data (h r)
         \<and> DecodeString (EncodeToString b) = Some b"
proof -
  from assms(2) have b: "rd_err (h r) = None" "b = rd_data (h r)" "h' = h(r := (h r)\<lparr>rd_data := []\<rparr>)"
    by (auto simp: ReadAll_def split: option.splits)
  have "Join ((headFields tbl m @ [iconField m b]) @ tailFields m) '' ''
          = Join (headFields tbl m) '' '' @ '' '' @ iconField m b
              @ '' refresh='' @ fmt_t (Refresh m) @ '' trim=false''"
    using Join_tail [of "headFields tbl m @ [iconField m b]" "''refresh='' @ fmt_t (Refresh m)" "''trim=false''" "'' ''"]
      Join_snoc [OF headFields_nonempty, of tbl m "iconField m b" "'' ''"]
    by (simp add: tailFields_def)
  with assms(1) b show ?thesis
    by (simp add: renderSelf_fields iconField_def base64_roundtrip)
qed

theorem icon_field_base64_witness:
  "Icon status_item = Some 0
   \<and> ReadAll one_reader 0 = (Inr [0x4D, 0x61], no_readers)
   \<and> renderSelf latin1_only one_reader status_item
       = (Inr ''Ok| image=TWE= refresh=false trim=false'', no_readers)
   \<and> DecodeString ''TWE='' = Some [0x4D, 0x61]"
proof -
  have i: "Icon status_item = Some 0" by (simp add: status_item_def)
  have hf: "headFields latin1_only status_item = [''Ok|'']"
    by (simp add: headFields_def styleFields_def status_item_def)
  have sel: "IconImageTemplate (Style status_item) = False" "Refresh status_item = False"
    by (simp_all add: status_item_def)
  have "renderSelf latin1_only one_reader status_item
          = (Inr (Join [''Ok|''] '' '' @ '' '' @ ''image'' @ ''='' @ ''TWE=''
                  @ '' refresh='' @ fmt_t False @ '' trim=false''), no_readers)
        \<and> DecodeString ''TWE='' = Some [0x4D, 0x61]"
    using icon_field_base64 [OF i ReadAll_one_reader, of latin1_only]
    unfolding hf EncodeToString_Ma sel by simp
  with i ReadAll_one_reader show ?thesis
    by (simp add: fmt_t_def)
qed

subsection \<open>A failing icon reader ends the rendering\<close>

text \<open>
  C7. Let the jobs of a plugin be \<open>before\<close>, then a line of the menu item \<open>m\<close>, then
  \<open>after\<close>; let the lines of \<open>before\<close> be written without failure, and let the reader
  of \<open>m\<close>'s icon then report the error \<open>e\<close>. Then \<open>renderSelf\<close> panics with \<open>e\<close>, and so
  does \<open>RunW\<close>: its caller gets the panic (not a returned error), the output is what
  \<open>before\<close> wrote, with no line for \<open>m\<close> and none of \<open>after\<close>, and nothing is retried.
\<close>

theorem icon_failure_stops:
  assumes jobs: "plugin_jobs p = before @ Job d (Item m) alt # after"
    and ok: "emit tbl w h before = (Inr (), w1, h1)"
    and icon: "Icon m = Some r" and err: "rd_err (h1 r) = Some e"
  shows "renderSelf tbl h1 m = (Inl (Panic e), h1(r := (h1 r)\<lparr>rd_data := []\<rparr>))
       \<and> RunW tbl w h p = (Inl (Panic e), w1, h1(r := (h1 r)\<lparr>rd_data := []\<rparr>))
       \<and> length (wout w1) = length (wout w) + length before"
proof -
  have r: "renderSelf tbl h1 m = (Inl (Panic e), h1(r := (h1 r)\<lparr>rd_data := []\<rparr>))"
    using icon err by (rule renderSelf_icon_error)
  have "render_job tbl w1 h1 (Job d (Item m) alt) = (Inl (Panic e), w1, h1(r := (h1 r)\<lparr>rd_data := []\<rparr>))"
    by (simp add: render_job_def r)
  then have "emit tbl w h (before @ Job d (Item m) alt # after)
               = (Inl (Panic e), w1, h1(r := (h1 r)\<lparr>rd_data := []\<rparr>))"
    using ok by (simp add: emit_append)
  with r emit_ok_length [OF ok] show ?thesis
    by (simp add: RunW_emit jobs)
qed

theorem icon_failure_stops_witness:
  "plugin_jobs broken_plugin =
     [Job 0 (Item (NewMenuItem ''T'')) False, Job 0 Separator False,
      Job 0 (Item (NewMenuItem ''a'')) False]
     @ Job 0 (Item broken_item) False # [Job 0 (Item (NewMenuItem ''c'')) False]
   \<and> emit latin1_only buffer failing_reader
        [Job 0 (Item (NewMenuItem ''T'')) False, Job 0 Separator False,
         Job 0 (Item (NewMenuItem ''a'')) False] =
        (Inr (),
         buffer\<lparr>wout := [''T| refresh=false trim=false'' @ newline, ''---'' @ newline,
                          ''a| refresh=false trim=false'' @ newline]\<rparr>,
         failing_reader)
   \<and> Icon broken_item = Some 1
   \<and> rd_err (failing_reader 1) = Some ''boom''
   \<and> RunW latin1_only buffer failing_reader broken_plugin =
        (Inl (Panic ''boom''),
         buffer\<lparr>wout := [''T| refresh=false trim=false'' @ newline, ''---'' @ newline,
                          ''a| refresh=false trim=false'' @ newline]\<rparr>,
         failing_reader(1 := (failing_reader 1)\<lparr>rd_data := []\<rparr>))"
proof -
  have i: "Icon broken_item = Some 1" by (simp add: broken_item_def)
  have e: "rd_err (failing_reader 1) = Some ''boom''" by (simp add: failing_reader_def)
  from icon_failure_stops [OF plugin_jobs_broken emit_before_broken i e]
    plugin_jobs_broken emit_before_broken i e
  show ?thesis by blast
qed

subsection \<open>The alternate line is written exactly for an alternate item\<close>



subsection \<open>Rendering twice\<close>

text \<open>
  C1, as the code has it. A first rendering reads the icon's reader to its end, so
  a second rendering of the same tree finds it empty: the plugin whose title has
  the icon of a reader holding two bytes renders its payload \<open>TWE=\<close> the first time
  and an empty payload the second time.
\<close>

theorem render_twice_counterexample:
  "RunW latin1_only buffer one_reader icon_plugin =
     (Inr (), buffer\<lparr>wout := [''| templateImage=TWE= refresh=false trim=false'' @ newline]\<rparr>,
      no_readers)
   \<and> RunW latin1_only buffer no_readers icon_plugin =
     (Inr (), buffer\<lparr>wout := [''| templateImage= refresh=false trim=false'' @ newline]\<rparr>,
      no_readers)
   \<and> wout (fst (snd (RunW latin1_only buffer one_reader icon_plugin)))
       \<noteq> wout (fst (snd (RunW latin1_only buffer
                 (snd (snd (RunW latin1_only buffer one_reader icon_plugin))) icon_plugin)))"
  by (simp add: RunW_icon_first RunW_icon_second)

text \<open>
  C1, amended. When every reader that the rendering of a plugin reads is at its end
  (in particular when no rendered item has an icon), the rendering leaves the store
  of readers as it was, and rendering the same plugin again with a writer in the
  same state gives the same result and the same output.
\<close>

theorem render_twice_same:
  assumes "\<forall>r\<in>set (rendered_icons p). at_end h r" and "RunW tbl w h p = (res, w', h')"
  shows "h' = h \<and> RunW tbl w h' p = (res, w', h')"
proof -
  have "\<forall>j\<in>set (plugin_jobs p). \<forall>r. job_icon j = Some r \<longrightarrow> at_end h r"
    using assms(1) by (force simp: rendered_icons_def)
  with assms(2) have "h' = h"
    using emit_at_end [of "plugin_jobs p" h tbl w res w' h'] by (simp add: RunW_emit)
  with assms(2) show ?thesis by simp
qed

theorem render_twice_same_witness:
  "set (rendered_icons icon_plugin) = {0}
   \<and> at_end no_readers 0
   \<and> RunW latin1_only buffer no_readers icon_plugin =
     (Inr (), buffer\<lparr>wout := [''| templateImage= refresh=false trim=false'' @ newline]\<rparr>,
      no_readers)
   \<and> RunW latin1_only buffer no_readers icon_plugin
       = RunW latin1_only buffer
           (snd (snd (RunW latin1_only buffer no_readers icon_plugin))) icon_plugin"
proof -
  have s: "set (rendered_icons icon_plugin) = {0}"
    by (simp add: rendered_icons_def plugin_jobs_def icon_plugin_def job_icon_def)
  have a: "at_end no_readers 0" by (simp add: at_end_def no_readers_def)
  from s a have "\<forall>r\<in>set (rendered_icons icon_plugin). at_end no_readers r" by simp
  from render_twice_same [OF this RunW_icon_second] s a RunW_icon_second
  show ?thesis by simp
qed

subsection \<open>The field of a shell action\<close>

text \<open>
  C2, as the code has it. The command is printed with the verb \<^verbatim>\<open>%q\<close>, which escapes:
  the command \<open>a"b\<close> is rendered as \<open>shell="a\"b"\<close>, with a backslash before the
  embedded double quote, and not as \<open>shell="a"b"\<close>.
\<close>

theorem shell_action_field_counterexample:
  \<open>Action quote_item = Some (ShellAction ''a"b'' [''x'', ''y''] False)
   \<and> fst (renderSelf latin1_only no_readers quote_item)
       = Inr (''t| terminal=false shell="a'' @ [CHR 0x5C] @ ''"b" param1='' @ [CHR 0x27] @ ''x''
              @ [CHR 0x27] @ '' param2='' @ [CHR 0x27] @ ''y'' @ [CHR 0x27]
              @ '' refresh=false trim=false'')
   \<and> fst (renderSelf latin1_only no_readers quote_item)
       \<noteq> Inr (''t| terminal=false shell="a"b" param1='' @ [CHR 0x27] @ ''x''
              @ [CHR 0x27] @ '' param2='' @ [CHR 0x27] @ ''y'' @ [CHR 0x27]
              @ '' refresh=false trim=false'')\<close>
  by (simp add: renderSelf_quote_item) (simp add: quote_item_def)

text \<open>
  C2, amended. For a menu item whose action is a ShellAction, the rendering is the
  title and style fields, then the action field, then the icon field if there is an
  icon, then the refresh and trim fields, joined by single spaces. The action field
  is \<open>terminal=<true|false> shell=<q>\<close> followed by \<open> param<i>='<arg>'\<close> for each argument,
  numbered from 1 in call order, each argument between single quotes and copied as
  it is. \<open><q>\<close> is the command as Go's \<^verbatim>\<open>%q\<close> prints it: between double quotes, copied
  as it is when every character is printable ASCII other than the double quote and
  the backslash, and with a backslash before an embedded double quote.
\<close>

theorem shell_action_field:
  assumes "Action m = Some (ShellAction command args terminal)"
    and "renderSelf tbl h m = (Inr s, h')"
  shows "s = Join (styleFields m
                   @ [''terminal='' @ fmt_t terminal @ '' shell='' @ Quote tbl command
                      @ concat (map2 (\<lambda>i arg. '' param'' @ fmt_d i @ ''='' @ [CHR 0x27] @ arg @ [CHR 0x27])
                          [1..<Suc (length args)] args)]
                   @ (case Icon m of None \<Rightarrow> [] | Some r \<Rightarrow> [iconField m (rd_data (h r))])
                   @ tailFields m) '' ''
       \<and> Quote tbl command = [CHR 0x22] @ quoteBody tbl command @ [CHR 0x22]
       \<and> ((\<forall>c\<in>set command. plain_char c) \<longrightarrow>
             Quote tbl command = [CHR 0x22] @ command @ [CHR 0x22])
       \<and> (\<forall>pre post. command = pre @ CHR 0x22 # post \<and> (\<forall>c\<in>set pre. plain_char c) \<longrightarrow>
             Quote tbl command
               = [CHR 0x22] @ pre @ [CHR 0x5C, CHR 0x22] @ quoteBody tbl post @ [CHR 0x22])"
proof -
  have hf: "headFields tbl m
              = styleFields m @ [''terminal='' @ fmt_t terminal @ '' shell='' @ Quote tbl command
                  @ paramFields 0 args]"
    using assms(1) by (simp add: headFields_def actionField_def)
  have 1: "s = Join (styleFields m
                   @ [''terminal='' @ fmt_t terminal @ '' shell='' @ Quote tbl command
                      @ paramFields 0 args]
                   @ (case Icon m of None \<Rightarrow> [] | Some r \<Rightarrow> [iconField m (rd_data (h r))])
                   @ tailFields m) '' ''"
    using assms(2) unfolding renderSelf_fields hf
    by (auto split: option.splits)
  have 3: "Quote tbl command = [CHR 0x22] @ command @ [CHR 0x22]"
    if "\<forall>c\<in>set command. plain_char c"
    using quoteBody_plain_string [OF that] by (simp add: Quote_def)
  have 4: "Quote tbl command
             = [CHR 0x22] @ pre @ [CHR 0x5C, CHR 0x22] @ quoteBody tbl post @ [CHR 0x22]"
    if "command = pre @ CHR 0x22 # post" and "\<forall>c\<in>set pre. plain_char c" for pre post
    using that quoteBody_plain_append [of pre tbl "CHR 0x22 # post"] quoteBody_dquote [of tbl post]
    by (simp add: Quote_def del: quoteBody.simps(2))
  from 1 3 4 show ?thesis
    unfolding paramFields_from_one by (simp add: Quote_def)
qed

theorem shell_action_field_witness:
  \<open>Action say_item = Some (ShellAction ''say'' [''hello'', ''world''] False)
   \<and> renderSelf latin1_only no_readers say_item =
       (Inr (''Say Hello| terminal=false shell="say" param1='' @ [CHR 0x27] @ ''hello'' @ [CHR 0x27]
             @ '' param2='' @ [CHR 0x27] @ ''world'' @ [CHR 0x27] @ '' refresh=false trim=false''),
        no_readers)
   \<and> ''Say Hello| terminal=false shell="say" param1='' @ [CHR 0x27] @ ''hello'' @ [CHR 0x27]
             @ '' param2='' @ [CHR 0x27] @ ''world'' @ [CHR 0x27] @ '' refresh=false trim=false''
       = Join (styleFields say_item
               @ [''terminal='' @ fmt_t False @ '' shell='' @ Quote latin1_only ''say''
                  @ concat (map2 (\<lambda>i arg. '' param'' @ fmt_d i @ ''='' @ [CHR 0x27] @ arg @ [CHR 0x27])
                      [1..<Suc (length [''hello'', ''world''])] [''hello'', ''world''])]
               @ (case Icon say_item of None \<Rightarrow> []
                  | Some r \<Rightarrow> [iconField say_item (rd_data (no_readers r))])
               @ tailFields say_item) '' ''
   \<and> Quote latin1_only ''say'' = [CHR 0x22] @ ''say'' @ [CHR 0x22]\<close>
proof -
  have a: "Action say_item = Some (ShellAction ''say'' [''hello'', ''world''] False)"
    by (simp add: say_item_def)
  from shell_action_field [OF a renderSelf_say_item [of latin1_only no_readers]] plain_say
    a renderSelf_say_item [of latin1_only no_readers]
  show ?thesis by blast
qed

end
